theory Spec2Isabelle
  imports Main
begin

section \<open>The lease store\<close>

text \<open>
  The backing store is a Redis instance: a map from string keys to string values, each
  with an optional absolute expiry (milliseconds since the epoch). A key whose expiry
  has been reached is invisible to every command, whether or not the entry is still
  physically present. One clock reading \<open>now\<close> (milliseconds, what \<^verbatim>\<open>Date.now()\<close>
  returns) is taken per call of an exported function.
\<close>

type_synonym entry = "string \<times> int option"
type_synonym store = "string \<rightharpoonup> entry"

definition live :: "int \<Rightarrow> entry \<Rightarrow> bool" where
  "live now e = (case snd e of None \<Rightarrow> True | Some t \<Rightarrow> now < t)"

text \<open>The store as the commands see it at time \<open>now\<close>: expired entries are gone.\<close>

definition visible :: "int \<Rightarrow> store \<Rightarrow> store" where
  "visible now s k =
     (case s k of None \<Rightarrow> None | Some e \<Rightarrow> if live now e then Some e else None)"

text \<open>\<^verbatim>\<open>redis.get(key)\<close>: the value, or null (\<open>None\<close>).\<close>

definition redis_get :: "store \<Rightarrow> int \<Rightarrow> string \<Rightarrow> string option" where
  "redis_get s now k = map_option fst (visible now s k)"

text \<open>\<^verbatim>\<open>redis.set(key, value)\<close>: unconditional, no expiry.\<close>

definition redis_set :: "store \<Rightarrow> string \<Rightarrow> string \<Rightarrow> store" where
  "redis_set s k v = s(k \<mapsto> (v, None))"

text \<open>\<^verbatim>\<open>redis.set(key, value, "EX", ttl)\<close>: unconditional, expiring after \<open>ttl\<close> seconds.\<close>

definition redis_set_ex :: "store \<Rightarrow> int \<Rightarrow> string \<Rightarrow> string \<Rightarrow> int \<Rightarrow> store" where
  "redis_set_ex s now k v ttl = s(k \<mapsto> (v, Some (now + ttl * 1000)))"

text \<open>
  \<^verbatim>\<open>redis.set(key, value, "NX", "EX", ttl)\<close>: creates the key only when it is not
  visible; answers \<^verbatim>\<open>"OK"\<close> on creation and null otherwise.
\<close>

definition redis_set_nx_ex ::
  "store \<Rightarrow> int \<Rightarrow> string \<Rightarrow> string \<Rightarrow> int \<Rightarrow> string option \<times> store" where
  "redis_set_nx_ex s now k v ttl =
     (case redis_get s now k of
        None \<Rightarrow> (Some ''OK'', s(k \<mapsto> (v, Some (now + ttl * 1000))))
      | Some _ \<Rightarrow> (None, s))"

definition redis_del :: "store \<Rightarrow> string \<Rightarrow> store" where
  "redis_del s k = s(k := None)"

subsection \<open>Key spaces\<close>

definition STATUS_KEY_PREFIX :: string where
  "STATUS_KEY_PREFIX = ''seat:status:''"

definition HOLD_TTL_SECONDS :: int where
  "HOLD_TTL_SECONDS = 120"

definition hold_key :: "string \<Rightarrow> string" where
  "hold_key seatId = ''hold:seat:'' @ seatId"

definition booking_key :: "string \<Rightarrow> string" where
  "booking_key bookingId = ''booking:'' @ bookingId"

definition status_key :: "string \<Rightarrow> string" where
  "status_key seatId = STATUS_KEY_PREFIX @ seatId"

section \<open>JavaScript values and JSON text\<close>

text \<open>
  The values that \<^verbatim>\<open>JSON.parse\<close> produces and \<^verbatim>\<open>JSON.stringify\<close> consumes.
  A number \<open>JNum m d\<close> is the exact decimal \<open>m / 10 ^ d\<close>, kept in lowest terms
  (\<open>d = 0\<close> or \<open>m\<close> not divisible by ten), so an integer \<open>n\<close> is \<open>JNum n 0\<close>. Rounding
  to binary64 is not modelled: the model is exact on numbers of at most fifteen
  significant digits, which covers every epoch time. A string is a list of 8-bit
  characters. An object keeps its members in order.
\<close>

datatype json =
    JNull
  | JBool bool
  | JNum int nat
  | JStr string
  | JArr "json list"
  | JObj "(string \<times> json) list"

definition digit_char :: "nat \<Rightarrow> char" where
  "digit_char n = ''0123456789abcdef'' ! (n mod 16)"

fun nat_digits :: "nat \<Rightarrow> string" where
  "nat_digits n = (if n < 10 then [digit_char n] else nat_digits (n div 10) @ [digit_char (n mod 10)])"

declare nat_digits.simps [simp del]

text \<open>
  \<^verbatim>\<open>Number::toString\<close> (radix 10). With \<open>ds\<close> the significant digits (\<open>k\<close> of them) and
  \<open>n\<close> the position of the decimal point: plain digits when \<open>k \<le> n \<le> 21\<close>, a decimal
  point inside when \<open>0 < n \<le> 21\<close>, leading \<open>0.\<close> when \<open>-6 < n \<le> 0\<close>, exponent notation
  otherwise.
\<close>

definition number_to_string :: "int \<Rightarrow> nat \<Rightarrow> string" where
  "number_to_string m d =
     (if m = 0 then ''0''
      else
        let ds0 = nat_digits (nat \<bar>m\<bar>);
            z = length (takeWhile (\<lambda>c. c = CHR ''0'') (rev ds0));
            ds = take (length ds0 - z) ds0;
            k = int (length ds);
            n = int (length ds0) - int d;
            body =
              (if k \<le> n \<and> n \<le> 21 then ds @ replicate (nat (n - k)) (CHR ''0'')
               else if 0 < n \<and> n \<le> 21 then take (nat n) ds @ ''.'' @ drop (nat n) ds
               else if - 6 < n \<and> n \<le> 0 then ''0.'' @ replicate (nat (- n)) (CHR ''0'') @ ds
               else
                 let e = n - 1;
                     es = (if e < 0 then ''-'' else ''+'') @ nat_digits (nat \<bar>e\<bar>)
                 in if k = 1 then ds @ ''e'' @ es
                    else take 1 ds @ ''.'' @ drop 1 ds @ ''e'' @ es)
        in (if m < 0 then ''-'' else '''') @ body)"

text \<open>\<^verbatim>\<open>QuoteJSONString\<close>: the escapes \<^verbatim>\<open>JSON.stringify\<close> writes.\<close>

definition quote_char :: "char \<Rightarrow> string" where
  "quote_char c =
     (if c = CHR 0x22 then [CHR 0x5C, CHR 0x22]
      else if c = CHR 0x5C then [CHR 0x5C, CHR 0x5C]
      else if c = CHR 0x08 then [CHR 0x5C, CHR ''b'']
      else if c = CHR 0x0C then [CHR 0x5C, CHR ''f'']
      else if c = CHR 0x0A then [CHR 0x5C, CHR ''n'']
      else if c = CHR 0x0D then [CHR 0x5C, CHR ''r'']
      else if c = CHR 0x09 then [CHR 0x5C, CHR ''t'']
      else if (of_char c :: nat) < 32 then
        [CHR 0x5C, CHR ''u'', CHR ''0'', CHR ''0'',
         digit_char (of_char c div 16), digit_char (of_char c mod 16)]
      else [c])"

definition quote_string :: "string \<Rightarrow> string" where
  "quote_string s = [CHR 0x22] @ concat (map quote_char s) @ [CHR 0x22]"

fun join :: "string \<Rightarrow> string list \<Rightarrow> string" where
  "join sep [] = []"
| "join sep [x] = x"
| "join sep (x # y # ys) = x @ sep @ join sep (y # ys)"

fun JSON_stringify :: "json \<Rightarrow> string" where
  "JSON_stringify JNull = ''null''"
| "JSON_stringify (JBool b) = (if b then ''true'' else ''false'')"
| "JSON_stringify (JNum m d) = number_to_string m d"
| "JSON_stringify (JStr s) = quote_string s"
| "JSON_stringify (JArr vs) = ''['' @ join '','' (map JSON_stringify vs) @ '']''"
| "JSON_stringify (JObj kvs) =
     ''{'' @ join '','' (map (\<lambda>(k, v). quote_string k @ '':'' @ JSON_stringify v) kvs) @ ''}''"

section \<open>SeatHoldManager: acquiring holds\<close>

text \<open>The payload \<^verbatim>\<open>JSON.stringify({ userId, bookingId, sectionId, expiresAt })\<close>.\<close>

definition hold_object :: "string \<Rightarrow> string \<Rightarrow> string \<Rightarrow> int \<Rightarrow> json" where
  "hold_object userId bookingId sectionId expiresAt =
     JObj [(''userId'', JStr userId), (''bookingId'', JStr bookingId),
           (''sectionId'', JStr sectionId), (''expiresAt'', JNum expiresAt 0)]"

definition createHold ::
  "store \<Rightarrow> int \<Rightarrow> string \<Rightarrow> string \<Rightarrow> string \<Rightarrow> string \<Rightarrow> bool \<times> store" where
  "createHold s now seatId userId bookingId sectionId =
     (let expiresAt = now + HOLD_TTL_SECONDS * 1000;
          holdData = JSON_stringify (hold_object userId bookingId sectionId expiresAt);
          (result, s1) = redis_set_nx_ex s now (hold_key seatId) holdData HOLD_TTL_SECONDS
      in if result = Some ''OK''
         then (True, redis_set_ex s1 now (booking_key bookingId) seatId HOLD_TTL_SECONDS)
         else (False, s1))"

text \<open>
  \<^verbatim>\<open>createMultipleHolds\<close> awaits one store command after another inside a
  \<^verbatim>\<open>try\<close> block, and any of them may reject with a store error. The errors are given by
  a schedule: the \<open>i\<close>-th store command of the call throws iff the \<open>i\<close>-th element of the
  schedule is \<open>True\<close> (an exhausted schedule means no further error). A command that
  throws leaves the store as it was.
\<close>

definition fault :: "bool list \<Rightarrow> bool" where
  "fault fs = (case fs of [] \<Rightarrow> False | f # _ \<Rightarrow> f)"

text \<open>The number of store errors in a schedule.\<close>

definition errors :: "bool list \<Rightarrow> nat" where
  "errors fs = length (filter id fs)"

datatype outcome =
    Returned bool
  | Rethrown
  | RollbackThrew

text \<open>A requested seat \<^verbatim>\<open>{ seatId, sectionId }\<close>, as the pair of its two fields.\<close>

type_synonym seat_request = "string \<times> string"

text \<open>
  The rollback loop followed by the delete of the booking index: the keys are deleted in
  order; the flag tells whether every delete went through.
\<close>

fun rollback_dels :: "bool list \<Rightarrow> store \<Rightarrow> string list \<Rightarrow> bool \<times> bool list \<times> store" where
  "rollback_dels fs s [] = (True, fs, s)"
| "rollback_dels fs s (k # ks) =
     (if fault fs then (False, tl fs, s) else rollback_dels (tl fs) (redis_del s k) ks)"

definition rollback :: "bool list \<Rightarrow> store \<Rightarrow> string \<Rightarrow> string list \<Rightarrow> bool \<times> bool list \<times> store" where
  "rollback fs s bookingId lockedSeats =
     rollback_dels fs s (map hold_key lockedSeats @ [booking_key bookingId])"

text \<open>
  The \<^verbatim>\<open>catch\<close> block: roll back, then rethrow the caught error. An error thrown by one
  of its own deletes leaves the function at once (\<open>RollbackThrew\<close>).
\<close>

definition catch_block :: "bool list \<Rightarrow> store \<Rightarrow> string \<Rightarrow> string list \<Rightarrow> outcome \<times> store" where
  "catch_block fs s bookingId lockedSeats =
     (case rollback fs s bookingId lockedSeats of
        (True, _, s') \<Rightarrow> (Rethrown, s')
      | (False, _, s') \<Rightarrow> (RollbackThrew, s'))"

text \<open>The body of the \<^verbatim>\<open>try\<close> block, with the seats not yet visited and \<open>lockedSeats\<close>.\<close>

fun lock_seats ::
  "bool list \<Rightarrow> store \<Rightarrow> int \<Rightarrow> string \<Rightarrow> string \<Rightarrow> seat_request list \<Rightarrow> string list
     \<Rightarrow> outcome \<times> store" where
  "lock_seats fs s now userId bookingId [] lockedSeats =
     (if fault fs then catch_block (tl fs) s bookingId lockedSeats
      else (Returned True,
            redis_set_ex s now (booking_key bookingId)
              (JSON_stringify (JArr (map JStr lockedSeats))) HOLD_TTL_SECONDS))"
| "lock_seats fs s now userId bookingId ((seatId, sectionId) # seats) lockedSeats =
     (if fault fs then catch_block (tl fs) s bookingId lockedSeats
      else
        let expiresAt = now + HOLD_TTL_SECONDS * 1000;
            holdData = JSON_stringify (hold_object userId bookingId sectionId expiresAt);
            (result, s1) = redis_set_nx_ex s now (hold_key seatId) holdData HOLD_TTL_SECONDS
        in if result \<noteq> Some ''OK''
           then (case rollback (tl fs) s1 bookingId lockedSeats of
                   (True, _, s2) \<Rightarrow> (Returned False, s2)
                 | (False, fs2, s2) \<Rightarrow> catch_block fs2 s2 bookingId lockedSeats)
           else lock_seats (tl fs) s1 now userId bookingId seats (lockedSeats @ [seatId]))"

definition createMultipleHolds ::
  "bool list \<Rightarrow> store \<Rightarrow> int \<Rightarrow> seat_request list \<Rightarrow> string \<Rightarrow> string \<Rightarrow> outcome \<times> store" where
  "createMultipleHolds fs s now seats userId bookingId =
     lock_seats fs s now userId bookingId seats []"

text \<open>\<^verbatim>\<open>setSeatBooked\<close>: the permanent marker, written without expiry.\<close>

definition setSeatBooked :: "store \<Rightarrow> string \<Rightarrow> store" where
  "setSeatBooked s seatId = redis_set s (status_key seatId) ''BOOKED''"

section \<open>Reading JSON text\<close>

text \<open>
  \<^verbatim>\<open>JSON.parse\<close> as a recursive-descent parser over the JSON grammar: the four
  white-space characters, the literals, numbers with fraction and exponent, strings with
  escapes, arrays and objects. \<open>None\<close> is the \<^verbatim>\<open>SyntaxError\<close> it throws. An escape
  \<^verbatim>\<open>\uXXXX\<close> above \<^verbatim>\<open>\u00ff\<close> has no 8-bit character and is rejected.
\<close>

definition is_json_ws :: "char \<Rightarrow> bool" where
  "is_json_ws c = (c = CHR 0x20 \<or> c = CHR 0x09 \<or> c = CHR 0x0A \<or> c = CHR 0x0D)"

definition skip_ws :: "string \<Rightarrow> string" where
  "skip_ws cs = dropWhile is_json_ws cs"

definition is_digit :: "char \<Rightarrow> bool" where
  "is_digit c = (48 \<le> (of_char c :: nat) \<and> (of_char c :: nat) \<le> 57)"

definition digit_val :: "char \<Rightarrow> nat" where
  "digit_val c = of_char c - 48"

definition digits_val :: "string \<Rightarrow> nat" where
  "digits_val ds = foldl (\<lambda>a c. 10 * a + digit_val c) 0 ds"

definition hex_val :: "char \<Rightarrow> nat option" where
  "hex_val c =
     (let n = (of_char c :: nat)
      in if 48 \<le> n \<and> n \<le> 57 then Some (n - 48)
         else if 97 \<le> n \<and> n \<le> 102 then Some (n - 87)
         else if 65 \<le> n \<and> n \<le> 70 then Some (n - 55)
         else None)"

fun strip_prefix :: "string \<Rightarrow> string \<Rightarrow> string option" where
  "strip_prefix [] cs = Some cs"
| "strip_prefix (p # ps) [] = None"
| "strip_prefix (p # ps) (c # cs) = (if p = c then strip_prefix ps cs else None)"

text \<open>
  The decimal \<open>\<plusminus> n \<times> 10 ^ e\<close> in lowest terms: a mantissa and a number of decimal places.
\<close>

fun strip_zeros :: "nat \<Rightarrow> nat \<Rightarrow> nat \<times> nat" where
  "strip_zeros n 0 = (n, 0)"
| "strip_zeros n (Suc k) = (if n mod 10 = 0 then strip_zeros (n div 10) k else (n, Suc k))"

definition decimal :: "bool \<Rightarrow> nat \<Rightarrow> int \<Rightarrow> int \<times> nat" where
  "decimal neg n e =
     (if n = 0 then (0, 0)
      else
        let (n', d) = (if 0 \<le> e then (n * 10 ^ nat e, 0) else strip_zeros n (nat (- e)))
        in ((if neg then - int n' else int n'), d))"

text \<open>
  An optional exponent part \<^verbatim>\<open>e\<close>, \<^verbatim>\<open>e+\<close> or \<^verbatim>\<open>e-\<close> and digits: the exponent (zero when
  there is none) and the rest; \<open>None\<close> when the indicator is not followed by digits.
\<close>

definition scan_exponent :: "string \<Rightarrow> (int \<times> string) option" where
  "scan_exponent cs =
     (case cs of
        [] \<Rightarrow> Some (0, [])
      | c # r \<Rightarrow>
          if c = CHR ''e'' \<or> c = CHR ''E'' then
            (let (neg, r1) =
                   (case r of
                      [] \<Rightarrow> (False, r)
                    | sg # r' \<Rightarrow>
                        if sg = CHR ''-'' then (True, r')
                        else if sg = CHR ''+'' then (False, r')
                        else (False, r));
                 ds = takeWhile is_digit r1
             in if ds = [] then None
                else Some ((if neg then - int (digits_val ds) else int (digits_val ds)),
                           dropWhile is_digit r1))
          else Some (0, cs))"

text \<open>
  A JSON number: an optional minus, an integer part without leading zero, an optional
  fraction of at least one digit, an optional exponent.
\<close>

definition parse_number :: "string \<Rightarrow> (json \<times> string) option" where
  "parse_number cs =
     (let (neg, r0) =
            (case cs of [] \<Rightarrow> (False, cs) | c # r \<Rightarrow> if c = CHR ''-'' then (True, r) else (False, cs));
          ip = takeWhile is_digit r0;
          r1 = dropWhile is_digit r0
      in if ip = [] \<or> (1 < length ip \<and> hd ip = CHR ''0'') then None
         else
           let (fp_ok, fp, r2) =
                 (case r1 of
                    [] \<Rightarrow> (True, [], r1)
                  | c # r \<Rightarrow>
                      if c = CHR ''.''
                      then (takeWhile is_digit r \<noteq> [], takeWhile is_digit r, dropWhile is_digit r)
                      else (True, [], r1))
           in if \<not> fp_ok then None
              else (case scan_exponent r2 of
                      None \<Rightarrow> None
                    | Some (e, r3) \<Rightarrow>
                        (case decimal neg (digits_val (ip @ fp)) (e - int (length fp)) of
                           (m, d) \<Rightarrow> Some (JNum m d, r3))))"

text \<open>The characters of a string after its opening quote, up to the closing quote.\<close>

definition unescape :: "char \<Rightarrow> char option" where
  "unescape e =
     (if e = CHR 0x22 then Some (CHR 0x22)
      else if e = CHR 0x5C then Some (CHR 0x5C)
      else if e = CHR ''/'' then Some (CHR ''/'')
      else if e = CHR ''b'' then Some (CHR 0x08)
      else if e = CHR ''f'' then Some (CHR 0x0C)
      else if e = CHR ''n'' then Some (CHR 0x0A)
      else if e = CHR ''r'' then Some (CHR 0x0D)
      else if e = CHR ''t'' then Some (CHR 0x09)
      else None)"

definition unicode_escape :: "char \<Rightarrow> char \<Rightarrow> char \<Rightarrow> char \<Rightarrow> char option" where
  "unicode_escape h1 h2 h3 h4 =
     (case (hex_val h1, hex_val h2, hex_val h3, hex_val h4) of
        (Some a, Some b, Some c, Some d) \<Rightarrow>
          if a = 0 \<and> b = 0 then Some (char_of (16 * c + d)) else None
      | _ \<Rightarrow> None)"

definition cons_result :: "'a \<Rightarrow> ('a list \<times> string) option \<Rightarrow> ('a list \<times> string) option" where
  "cons_result x res = (case res of None \<Rightarrow> None | Some (xs, r) \<Rightarrow> Some (x # xs, r))"

fun parse_string_body :: "string \<Rightarrow> (string \<times> string) option" where
  "parse_string_body [] = None"
| "parse_string_body [c] = (if c = CHR 0x22 then Some ([], []) else None)"
| "parse_string_body (c # e # cs) =
     (if c = CHR 0x22 then Some ([], e # cs)
      else if c = CHR 0x5C then
        (if e = CHR ''u'' then
           (case cs of
              h1 # h2 # h3 # h4 # r \<Rightarrow>
                (case unicode_escape h1 h2 h3 h4 of
                   None \<Rightarrow> None
                 | Some x \<Rightarrow> cons_result x (parse_string_body r))
            | _ \<Rightarrow> None)
         else (case unescape e of
                 None \<Rightarrow> None
               | Some x \<Rightarrow> cons_result x (parse_string_body cs)))
      else if (of_char c :: nat) < 32 then None
      else cons_result c (parse_string_body (e # cs)))"

text \<open>
  The parser proper. Every call takes one unit of fuel; \<^verbatim>\<open>JSON.parse\<close> below supplies
  more than any text can use, since a call consumes a character before it descends.
\<close>

fun parse_value :: "nat \<Rightarrow> string \<Rightarrow> (json \<times> string) option"
  and parse_elements :: "nat \<Rightarrow> string \<Rightarrow> (json list \<times> string) option"
  and parse_members :: "nat \<Rightarrow> string \<Rightarrow> ((string \<times> json) list \<times> string) option" where
  "parse_value 0 cs = None"
| "parse_value (Suc n) cs =
     (case skip_ws cs of
        [] \<Rightarrow> None
      | c # r \<Rightarrow>
          if c = CHR ''['' then
            (case skip_ws r of
               [] \<Rightarrow> None
             | c' # r' \<Rightarrow>
                 if c' = CHR '']'' then Some (JArr [], r')
                 else map_option (\<lambda>(vs, r''). (JArr vs, r'')) (parse_elements n r))
          else if c = CHR ''{'' then
            (case skip_ws r of
               [] \<Rightarrow> None
             | c' # r' \<Rightarrow>
                 if c' = CHR ''}'' then Some (JObj [], r')
                 else map_option (\<lambda>(kvs, r''). (JObj kvs, r'')) (parse_members n r))
          else if c = CHR 0x22 then map_option (\<lambda>(str, r'). (JStr str, r')) (parse_string_body r)
          else if c = CHR ''t'' then map_option (Pair (JBool True)) (strip_prefix ''rue'' r)
          else if c = CHR ''f'' then map_option (Pair (JBool False)) (strip_prefix ''alse'' r)
          else if c = CHR ''n'' then map_option (Pair JNull) (strip_prefix ''ull'' r)
          else parse_number (c # r))"
| "parse_elements 0 cs = None"
| "parse_elements (Suc n) cs =
     (case parse_value n cs of
        None \<Rightarrow> None
      | Some (v, r) \<Rightarrow>
          (case skip_ws r of
             [] \<Rightarrow> None
           | c # r' \<Rightarrow>
               if c = CHR '','' then cons_result v (parse_elements n r')
               else if c = CHR '']'' then Some ([v], r')
               else None))"
| "parse_members 0 cs = None"
| "parse_members (Suc n) cs =
     (case skip_ws cs of
        [] \<Rightarrow> None
      | q # r \<Rightarrow>
          if q \<noteq> CHR 0x22 then None
          else
            (case parse_string_body r of
               None \<Rightarrow> None
             | Some (k, r1) \<Rightarrow>
                 (case skip_ws r1 of
                    [] \<Rightarrow> None
                  | c # r2 \<Rightarrow>
                      if c \<noteq> CHR '':'' then None
                      else
                        (case parse_value n r2 of
                           None \<Rightarrow> None
                         | Some (v, r3) \<Rightarrow>
                             (case skip_ws r3 of
                                [] \<Rightarrow> None
                              | c' # r4 \<Rightarrow>
                                  if c' = CHR '','' then cons_result (k, v) (parse_members n r4)
                                  else if c' = CHR ''}'' then Some ([(k, v)], r4)
                                  else None)))))"

definition JSON_parse :: "string \<Rightarrow> json option" where
  "JSON_parse text =
     (case parse_value (2 * length text + 1) text of
        None \<Rightarrow> None
      | Some (v, r) \<Rightarrow> if skip_ws r = [] then Some v else None)"

section \<open>JavaScript operations on parsed values\<close>

text \<open>Truthiness (\<^verbatim>\<open>if (v)\<close>, \<^verbatim>\<open>v && ...\<close>); \<^verbatim>\<open>undefined\<close> is \<open>None\<close>.\<close>

definition truthy :: "json \<Rightarrow> bool" where
  "truthy v =
     (case v of
        JNull \<Rightarrow> False
      | JBool b \<Rightarrow> b
      | JNum m d \<Rightarrow> m \<noteq> 0
      | JStr str \<Rightarrow> str \<noteq> []
      | JArr _ \<Rightarrow> True
      | JObj _ \<Rightarrow> True)"

definition truthy_opt :: "json option \<Rightarrow> bool" where
  "truthy_opt v = (case v of None \<Rightarrow> False | Some x \<Rightarrow> truthy x)"

text \<open>
  Reading one of the properties \<^verbatim>\<open>userId\<close>, \<^verbatim>\<open>bookingId\<close>, \<^verbatim>\<open>sectionId\<close>,
  \<^verbatim>\<open>expiresAt\<close> of a value that is not null: the member of an object (the last one of
  that name, as \<^verbatim>\<open>JSON.parse\<close> keeps it), \<^verbatim>\<open>undefined\<close> on anything else.
\<close>

definition get_prop :: "json \<Rightarrow> string \<Rightarrow> json option" where
  "get_prop v name = (case v of JObj kvs \<Rightarrow> map_of (rev kvs) name | _ \<Rightarrow> None)"

text \<open>\<^verbatim>\<open>ToString\<close>, as a template literal applies it.\<close>

fun js_to_string :: "json \<Rightarrow> string" where
  "js_to_string JNull = ''null''"
| "js_to_string (JBool b) = (if b then ''true'' else ''false'')"
| "js_to_string (JNum m d) = number_to_string m d"
| "js_to_string (JStr str) = str"
| "js_to_string (JArr vs) = join '','' (map (\<lambda>v. if v = JNull then [] else js_to_string v) vs)"
| "js_to_string (JObj kvs) = ''[object Object]''"

definition template :: "json option \<Rightarrow> string" where
  "template v = (case v of None \<Rightarrow> ''undefined'' | Some x \<Rightarrow> js_to_string x)"

text \<open>\<^verbatim>\<open>ToNumber\<close>: a finite decimal, an infinity or \<^verbatim>\<open>NaN\<close>.\<close>

datatype jsnum = NaN | NegInf | PosInf | Fin int nat

definition is_str_ws :: "char \<Rightarrow> bool" where
  "is_str_ws c = ((of_char c :: nat) \<in> {9, 10, 11, 12, 13, 32, 160})"

definition trim_ws :: "string \<Rightarrow> string" where
  "trim_ws str = rev (dropWhile is_str_ws (rev (dropWhile is_str_ws str)))"

definition radix_val :: "nat \<Rightarrow> string \<Rightarrow> nat option" where
  "radix_val b ds =
     (if ds \<noteq> [] \<and> (\<forall>c \<in> set ds. case hex_val c of None \<Rightarrow> False | Some v \<Rightarrow> v < b)
      then Some (foldl (\<lambda>a c. b * a + the (hex_val c)) 0 ds)
      else None)"

definition unsigned_decimal :: "bool \<Rightarrow> string \<Rightarrow> jsnum" where
  "unsigned_decimal neg str =
     (if str = ''Infinity'' then (if neg then NegInf else PosInf)
      else
        let ip = takeWhile is_digit str;
            r1 = dropWhile is_digit str;
            (fp, r2) =
              (case r1 of
                 [] \<Rightarrow> ([], r1)
               | c # r \<Rightarrow>
                   if c = CHR ''.'' then (takeWhile is_digit r, dropWhile is_digit r) else ([], r1))
        in if ip = [] \<and> fp = [] then NaN
           else (case scan_exponent r2 of
                   None \<Rightarrow> NaN
                 | Some (e, r3) \<Rightarrow>
                     if r3 \<noteq> [] then NaN
                     else (case decimal neg (digits_val (ip @ fp)) (e - int (length fp)) of
                             (m, d) \<Rightarrow> Fin m d)))"

definition string_to_number :: "string \<Rightarrow> jsnum" where
  "string_to_number str =
     (let t = trim_ws str
      in case t of
           [] \<Rightarrow> Fin 0 0
         | c # r \<Rightarrow>
             if c = CHR ''0'' \<and> r \<noteq> [] \<and> hd r \<in> {CHR ''x'', CHR ''X''}
             then (case radix_val 16 (tl r) of None \<Rightarrow> NaN | Some n \<Rightarrow> Fin (int n) 0)
             else if c = CHR ''0'' \<and> r \<noteq> [] \<and> hd r \<in> {CHR ''o'', CHR ''O''}
             then (case radix_val 8 (tl r) of None \<Rightarrow> NaN | Some n \<Rightarrow> Fin (int n) 0)
             else if c = CHR ''0'' \<and> r \<noteq> [] \<and> hd r \<in> {CHR ''b'', CHR ''B''}
             then (case radix_val 2 (tl r) of None \<Rightarrow> NaN | Some n \<Rightarrow> Fin (int n) 0)
             else if c = CHR ''-'' then unsigned_decimal True r
             else if c = CHR ''+'' then unsigned_decimal False r
             else unsigned_decimal False t)"

definition to_number :: "json \<Rightarrow> jsnum" where
  "to_number v =
     (case v of
        JNull \<Rightarrow> Fin 0 0
      | JBool b \<Rightarrow> Fin (if b then 1 else 0) 0
      | JNum m d \<Rightarrow> Fin m d
      | JStr str \<Rightarrow> string_to_number str
      | JArr vs \<Rightarrow> string_to_number (js_to_string (JArr vs))
      | JObj _ \<Rightarrow> NaN)"

text \<open>\<^verbatim>\<open>v < n\<close> for a value \<open>v\<close> and an integer \<open>n\<close>: numeric, false on \<^verbatim>\<open>NaN\<close>.\<close>

definition js_less_than :: "json \<Rightarrow> int \<Rightarrow> bool" where
  "js_less_than v n =
     (case to_number v of
        NaN \<Rightarrow> False
      | NegInf \<Rightarrow> True
      | PosInf \<Rightarrow> False
      | Fin m d \<Rightarrow> m < n * 10 ^ d)"

section \<open>SeatHoldManager: reading and releasing holds\<close>

text \<open>
  \<^verbatim>\<open>getHold(seatId)\<close>. The result is the parsed payload, or null (\<open>None\<close>). Both the
  \<^verbatim>\<open>SyntaxError\<close> of \<^verbatim>\<open>JSON.parse\<close> and the \<^verbatim>\<open>TypeError\<close> of reading
  \<^verbatim>\<open>expiresAt\<close> from a parsed \<^verbatim>\<open>null\<close> end in the \<^verbatim>\<open>catch\<close> block.
\<close>

definition getHold :: "store \<Rightarrow> int \<Rightarrow> json \<Rightarrow> json option \<times> store" where
  "getHold s now seatId =
     (case redis_get s now (hold_key (js_to_string seatId)) of
        None \<Rightarrow> (None, s)
      | Some data \<Rightarrow>
          if data = [] then (None, s)
          else
            (case JSON_parse data of
               None \<Rightarrow> (None, s)
             | Some hold \<Rightarrow>
                 if hold = JNull then (None, s)
                 else if truthy_opt (get_prop hold ''expiresAt'') \<and>
                         js_less_than (the (get_prop hold ''expiresAt'')) now
                 then (None, redis_del s (hold_key (js_to_string seatId)))
                 else (Some hold, s)))"

text \<open>The entry \<^verbatim>\<open>{ seatId, userId, sectionId, bookingId }\<close> pushed for a live seat.\<close>

datatype seat_record =
  SeatRecord (seat_of: json) (user_of: "json option") (section_of: "json option")
    (booking_of: "json option")

text \<open>What \<^verbatim>\<open>getHoldByBookingId\<close> returns besides null: one seat, or a booking with seats.\<close>

datatype booking_record =
    Flat seat_record
  | Grouped string "json option" "seat_record list"

definition seat_record_of :: "json \<Rightarrow> json \<Rightarrow> seat_record" where
  "seat_record_of seatId hold =
     SeatRecord seatId (get_prop hold ''userId'') (get_prop hold ''sectionId'')
       (get_prop hold ''bookingId'')"

text \<open>The \<^verbatim>\<open>for\<close> loop over \<^verbatim>\<open>seatIdArray\<close>, with \<^verbatim>\<open>seats\<close> collected so far.\<close>

fun collect_seats :: "store \<Rightarrow> int \<Rightarrow> json list \<Rightarrow> seat_record list \<Rightarrow> seat_record list \<times> store" where
  "collect_seats s now [] seats = (seats, s)"
| "collect_seats s now (seatId # seatIdArray) seats =
     (case getHold s now seatId of
        (hold, s1) \<Rightarrow>
          if truthy_opt hold
          then collect_seats s1 now seatIdArray (seats @ [seat_record_of seatId (the hold)])
          else collect_seats s1 now seatIdArray seats)"

definition getHoldByBookingId :: "store \<Rightarrow> int \<Rightarrow> string \<Rightarrow> booking_record option \<times> store" where
  "getHoldByBookingId s now bookingId =
     (case redis_get s now (booking_key bookingId) of
        None \<Rightarrow> (None, s)
      | Some data \<Rightarrow>
          if data = [] then (None, s)
          else
            (case JSON_parse data of
               Some seatIds \<Rightarrow>
                 (let seatIdArray = (case seatIds of JArr vs \<Rightarrow> vs | _ \<Rightarrow> [seatIds])
                  in case collect_seats s now seatIdArray [] of
                       (seats, s1) \<Rightarrow>
                         if length seats = 0 then (None, s1)
                         else if length seats = 1 then (Some (Flat (hd seats)), s1)
                         else (Some (Grouped bookingId (user_of (hd seats)) seats), s1))
             | None \<Rightarrow>
                 (case getHold s now (JStr data) of
                    (hold, s1) \<Rightarrow>
                      if truthy_opt hold
                      then (Some (Flat (seat_record_of (JStr data) (the hold))), s1)
                      else (None, s1))))"

text \<open>
  For the statement of what \<^verbatim>\<open>getHoldByBookingId\<close> computes: the ids it reads out of
  a booking-index value, and the seats a list of ids resolves to (one entry per id with a
  truthy hold).
\<close>

definition decoded_ids :: "string \<Rightarrow> json list" where
  "decoded_ids data =
     (case JSON_parse data of None \<Rightarrow> [JStr data] | Some (JArr vs) \<Rightarrow> vs | Some v \<Rightarrow> [v])"

definition live_seats :: "store \<Rightarrow> int \<Rightarrow> json list \<Rightarrow> seat_record list" where
  "live_seats s now ids =
     concat (map (\<lambda>sid. case fst (getHold s now sid) of
                          None \<Rightarrow> []
                        | Some hold \<Rightarrow> if truthy hold then [seat_record_of sid hold] else []) ids)"

text \<open>\<^verbatim>\<open>releaseHold(seatId, userId)\<close>; \<^verbatim>\<open>hold.userId === userId\<close> compares with a string.\<close>

definition releaseHold :: "store \<Rightarrow> int \<Rightarrow> string \<Rightarrow> string \<Rightarrow> bool \<times> store" where
  "releaseHold s now seatId userId =
     (case getHold s now (JStr seatId) of
        (hold, s1) \<Rightarrow>
          if truthy_opt hold \<and> get_prop (the hold) ''userId'' = Some (JStr userId)
          then (True,
                redis_del (redis_del s1 (hold_key seatId))
                  (booking_key (template (get_prop (the hold) ''bookingId''))))
          else (False, s1))"

definition isHeld :: "store \<Rightarrow> int \<Rightarrow> string \<Rightarrow> bool \<times> store" where
  "isHeld s now seatId = (case getHold s now (JStr seatId) of (hold, s1) \<Rightarrow> (truthy_opt hold, s1))"

section \<open>StatusResolver\<close>

text \<open>\<^verbatim>\<open>getRedisSeatStatus\<close>: \<^verbatim>\<open>"BOOKED"\<close>, \<^verbatim>\<open>"HOLD"\<close> or null.\<close>

definition getRedisSeatStatus :: "store \<Rightarrow> int \<Rightarrow> string \<Rightarrow> string option \<times> store" where
  "getRedisSeatStatus s now seatId =
     (if redis_get s now (status_key seatId) = Some ''BOOKED'' then (Some ''BOOKED'', s)
      else case getHold s now (JStr seatId) of
             (hold, s1) \<Rightarrow> if truthy_opt hold then (Some ''HOLD'', s1) else (None, s1))"

text \<open>
  \<^verbatim>\<open>getAllSeatStatuses\<close>: the pipeline reads every status key, then every hold key; the
  loop over the indices fills the \<^verbatim>\<open>Map\<close> \<^verbatim>\<open>statuses\<close>. A string is truthy when it is
  not empty.
\<close>

definition pipeline_results :: "store \<Rightarrow> int \<Rightarrow> string list \<Rightarrow> string option list" where
  "pipeline_results s now seatIds =
     map (\<lambda>id. redis_get s now (status_key id)) seatIds @
     map (\<lambda>id. redis_get s now (hold_key id)) seatIds"

definition status_step ::
  "string list \<Rightarrow> string option list \<Rightarrow> (string \<rightharpoonup> string) \<Rightarrow> nat \<Rightarrow> (string \<rightharpoonup> string)" where
  "status_step seatIds results statuses i =
     (let numSeats = length seatIds;
          seatId = seatIds ! i;
          booked = results ! i;
          holdData = results ! (i + numSeats)
      in if booked = Some ''BOOKED'' then statuses(seatId \<mapsto> ''BOOKED'')
         else if holdData \<noteq> None \<and> holdData \<noteq> Some [] then statuses(seatId \<mapsto> ''HOLD'')
         else statuses)"

definition getAllSeatStatuses :: "store \<Rightarrow> int \<Rightarrow> string list \<Rightarrow> (string \<rightharpoonup> string)" where
  "getAllSeatStatuses s now seatIds =
     foldl (status_step seatIds (pipeline_results s now seatIds)) Map.empty [0 ..< length seatIds]"

text \<open>
  The mapping of the specification: \<^verbatim>\<open>resolveOne\<close> called on each id in turn, ids
  that resolve to null left out.
\<close>

fun resolve_each :: "store \<Rightarrow> int \<Rightarrow> string list \<Rightarrow> (string \<rightharpoonup> string) \<Rightarrow> (string \<rightharpoonup> string)" where
  "resolve_each s now [] statuses = statuses"
| "resolve_each s now (seatId # seatIds) statuses =
     (case getRedisSeatStatus s now seatId of
        (None, s1) \<Rightarrow> resolve_each s1 now seatIds statuses
      | (Some st, s1) \<Rightarrow> resolve_each s1 now seatIds (statuses(seatId \<mapsto> st)))"

section \<open>GeoGate\<close>

text \<open>
  \<^verbatim>\<open>toLowerCase\<close> on 8-bit characters: the letters \<^verbatim>\<open>A\<close> to \<^verbatim>\<open>Z\<close> and the accented
  capitals of Latin-1.
\<close>

definition to_lower_char :: "char \<Rightarrow> char" where
  "to_lower_char c =
     (let n = (of_char c :: nat)
      in if (65 \<le> n \<and> n \<le> 90) \<or> (192 \<le> n \<and> n \<le> 222 \<and> n \<noteq> 215) then char_of (n + 32) else c)"

definition toLowerCase :: "string \<Rightarrow> string" where
  "toLowerCase str = map to_lower_char str"

definition geo_key :: "string \<Rightarrow> string" where
  "geo_key city = ''geo:unlock:'' @ toLowerCase city"

text \<open>
  \<^verbatim>\<open>new Date(v * 1000).toISOString()\<close> throws a \<^verbatim>\<open>RangeError\<close> unless the time value is
  a number of at most 8.64e15 milliseconds in magnitude.
\<close>

definition valid_date :: "json \<Rightarrow> bool" where
  "valid_date v =
     (case to_number v of
        Fin m d \<Rightarrow> \<bar>m\<bar> * 1000 \<le> 8640000000000000 * 10 ^ d
      | _ \<Rightarrow> False)"

text \<open>
  \<^verbatim>\<open>setGeoUnlockTime(city, unixTimestamp)\<close>. \<^verbatim>\<open>unixTimestamp.toString()\<close> throws on
  null, before anything is written; the log line after the write throws when the time is
  no valid date. The flag tells whether the call returned normally.
\<close>

definition setGeoUnlockTime :: "store \<Rightarrow> string \<Rightarrow> json \<Rightarrow> bool \<times> store" where
  "setGeoUnlockTime s city unixTimestamp =
     (if unixTimestamp = JNull then (False, s)
      else (valid_date unixTimestamp,
            redis_set s (geo_key city) (js_to_string unixTimestamp)))"

subsection \<open>The bulk update (\<^verbatim>\<open>PUT /api/geo-unlock\<close>)\<close>

text \<open>
  \<^verbatim>\<open>new Date(text).getTime()\<close> depends on the host's date parser, which is a parameter
  \<open>date_parse\<close> here (\<open>None\<close> for an invalid date); a date never holds a time beyond
  8.64e15 milliseconds.
\<close>

definition Date_getTime :: "(string \<Rightarrow> int option) \<Rightarrow> string \<Rightarrow> int option" where
  "Date_getTime date_parse text =
     (case date_parse text of
        None \<Rightarrow> None
      | Some ms \<Rightarrow> if \<bar>ms\<bar> \<le> 8640000000000000 then Some ms else None)"

datatype put_response =
    InvalidTimeFormat string json
  | Success nat "(string \<times> json) list"

definition set_result :: "(string \<times> json) list \<Rightarrow> string \<Rightarrow> json \<Rightarrow> (string \<times> json) list" where
  "set_result results city v =
     (if city \<in> fst ` set results
      then map (\<lambda>(k, x). if k = city then (k, v) else (k, x)) results
      else results @ [(city, v)])"

text \<open>
  The conversion at the head of the loop body: a string goes through the date parser
  (\<open>None\<close> when the \<^verbatim>\<open>Error\<close> for an invalid date is thrown), anything else is taken
  as it is.
\<close>

definition convert_entry :: "(string \<Rightarrow> int option) \<Rightarrow> json \<Rightarrow> json option" where
  "convert_entry date_parse unlocksAt =
     (case unlocksAt of
        JStr text \<Rightarrow>
          (case Date_getTime date_parse text of
             None \<Rightarrow> None
           | Some ms \<Rightarrow> Some (JNum (ms div 1000) 0))
      | _ \<Rightarrow> Some unlocksAt)"

text \<open>The loop over \<^verbatim>\<open>Object.entries(body)\<close>, with the \<^verbatim>\<open>results\<close> so far.\<close>

fun put_entries ::
  "(string \<Rightarrow> int option) \<Rightarrow> store \<Rightarrow> (string \<times> json) list \<Rightarrow> (string \<times> json) list
     \<Rightarrow> put_response \<times> store" where
  "put_entries date_parse s [] results = (Success (length results) results, s)"
| "put_entries date_parse s ((city, unlocksAt) # body) results =
     (case convert_entry date_parse unlocksAt of
        None \<Rightarrow> (InvalidTimeFormat city unlocksAt, s)
      | Some unixTimestamp \<Rightarrow>
          (case setGeoUnlockTime s city unixTimestamp of
             (False, s1) \<Rightarrow> (InvalidTimeFormat city unlocksAt, s1)
           | (True, s1) \<Rightarrow>
               put_entries date_parse s1 body (set_result results city unixTimestamp)))"

definition PUT :: "(string \<Rightarrow> int option) \<Rightarrow> store \<Rightarrow> (string \<times> json) list \<Rightarrow> put_response \<times> store" where
  "PUT date_parse s body = put_entries date_parse s body []"

text \<open>
  An entry the loop passes: its conversion succeeds and \<^verbatim>\<open>setGeoUnlockTime\<close> returns.
  The store and the results after a run of such entries.
\<close>

definition accepted :: "(string \<Rightarrow> int option) \<Rightarrow> json \<Rightarrow> bool" where
  "accepted date_parse v =
     (case convert_entry date_parse v of
        None \<Rightarrow> False
      | Some u \<Rightarrow> u \<noteq> JNull \<and> valid_date u)"

definition write_entries :: "(string \<Rightarrow> int option) \<Rightarrow> store \<Rightarrow> (string \<times> json) list \<Rightarrow> store" where
  "write_entries date_parse s entries =
     foldl (\<lambda>s' (city, v). redis_set s' (geo_key city) (js_to_string (the (convert_entry date_parse v))))
       s entries"

definition collect_results ::
  "(string \<Rightarrow> int option) \<Rightarrow> (string \<times> json) list \<Rightarrow> (string \<times> json) list \<Rightarrow> (string \<times> json) list" where
  "collect_results date_parse results entries =
     foldl (\<lambda>r (city, v). set_result r city (the (convert_entry date_parse v))) results entries"

subsection \<open>Reading the gate\<close>







record geo_status =
  isUnlocked :: bool
  unlocksAt :: "int option"
  remainingSeconds :: int


lemma hold_key_inj [simp]: "hold_key a = hold_key b \<longleftrightarrow> a = b"
  by (simp add: hold_key_def)

lemma hold_key_neq_booking_key [simp]: "hold_key a \<noteq> booking_key b" "booking_key b \<noteq> hold_key a"
  by (simp_all add: hold_key_def booking_key_def)

lemma status_key_neq [simp]:
  "status_key a \<noteq> hold_key b" "hold_key b \<noteq> status_key a"
  "status_key a \<noteq> booking_key b" "booking_key b \<noteq> status_key a"
  by (simp_all add: hold_key_def booking_key_def status_key_def STATUS_KEY_PREFIX_def)

lemma status_key_inj [simp]: "status_key a = status_key b \<longleftrightarrow> a = b"
  by (simp add: status_key_def STATUS_KEY_PREFIX_def)

lemma booking_key_inj [simp]: "booking_key a = booking_key b \<longleftrightarrow> a = b"
  by (simp add: booking_key_def)

lemma visible_del: "visible now (redis_del s k) = (visible now s)(k := None)"
  by (auto simp: visible_def redis_del_def fun_eq_iff)

lemma visible_upd_live:
  "live now e \<Longrightarrow> visible now (s(k \<mapsto> e)) = (visible now s)(k \<mapsto> e)"
  by (auto simp: visible_def fun_eq_iff)

lemma live_ttl [simp]: "live now (v, Some (now + HOLD_TTL_SECONDS * 1000))"
  by (simp add: live_def HOLD_TTL_SECONDS_def)

lemma redis_get_None_iff: "redis_get s now k = None \<longleftrightarrow> visible now s k = None"
  by (simp add: redis_get_def)

lemma set_nx_ex_cases:
  "redis_set_nx_ex s now k v ttl =
     (if visible now s k = None then (Some ''OK'', s(k \<mapsto> (v, Some (now + ttl * 1000)))) else (None, s))"
  by (auto simp: redis_set_nx_ex_def redis_get_def split: option.splits)

lemma rollback_dels_frame:
  "rollback_dels fs s ks = (ok, fs', s') \<Longrightarrow> k \<notin> set ks \<Longrightarrow> s' k = s k"
  by (induction fs s ks rule: rollback_dels.induct) (auto simp: redis_del_def split: if_splits)

lemma rollback_dels_done:
  "rollback_dels fs s ks = (True, fs', s') \<Longrightarrow> s' = (\<lambda>k. if k \<in> set ks then None else s k)"
  by (induction fs s ks rule: rollback_dels.induct) (auto simp: redis_del_def fun_eq_iff split: if_splits)

lemma rollback_dels_partial:
  "rollback_dels fs s ks = (ok, fs', s') \<Longrightarrow> s' k = s k \<or> (k \<in> set ks \<and> s' k = None)"
  by (induction fs s ks rule: rollback_dels.induct) (auto simp: redis_del_def split: if_splits)

lemma rollback_visible_done:
  assumes "rollback fs s b locked = (True, fs', s')"
  shows "visible now s' = (\<lambda>k. if k = booking_key b \<or> k \<in> hold_key ` set locked then None else visible now s k)"
proof -
  from assms have "s' = (\<lambda>k. if k \<in> set (map hold_key locked @ [booking_key b]) then None else s k)"
    unfolding rollback_def by (rule rollback_dels_done)
  then show ?thesis by (auto simp: visible_def fun_eq_iff)
qed

lemma rollback_partial:
  assumes "rollback fs s b locked = (ok, fs', s')"
  shows "s' k = s k \<or> ((k = booking_key b \<or> k \<in> hold_key ` set locked) \<and> s' k = None)"
  using rollback_dels_partial [OF assms [unfolded rollback_def], of k] by auto

lemma catch_block_rethrown:
  assumes "catch_block fs s b locked = (Rethrown, s')"
  shows "visible now s' = (\<lambda>k. if k = booking_key b \<or> k \<in> hold_key ` set locked then None else visible now s k)"
proof -
  from assms obtain fs' where "rollback fs s b locked = (True, fs', s')"
    by (auto simp: catch_block_def split: prod.splits bool.splits)
  then show ?thesis by (rule rollback_visible_done)
qed

lemma catch_block_not_returned [simp]: "fst (catch_block fs s b locked) \<noteq> Returned r"
  by (auto simp: catch_block_def split: prod.splits bool.splits)

lemma catch_block_frame:
  assumes "catch_block fs s b locked = (out, s')"
  shows "s' k = s k \<or> ((k = booking_key b \<or> k \<in> hold_key ` set locked) \<and> s' k = None)"
proof -
  from assms obtain ok fs' where "rollback fs s b locked = (ok, fs', s')"
    by (auto simp: catch_block_def split: prod.splits bool.splits)
  then show ?thesis by (rule rollback_partial)
qed

lemma lock_seats_rolled_back:
  "lock_seats fs s now u b seats locked = (out, s') \<Longrightarrow> out = Returned False \<or> out = Rethrown \<Longrightarrow>
   visible now s' = (\<lambda>k. if k = booking_key b \<or> k \<in> hold_key ` set locked then None else visible now s k)"
proof (induction seats arbitrary: fs s locked)
  case Nil
  show ?case
  proof (cases "fault fs")
    case True
    with Nil have cb: "catch_block (tl fs) s b locked = (out, s')" by simp
    with Nil(2) have "out = Rethrown" by (metis catch_block_not_returned fst_conv)
    with cb show ?thesis by (auto dest: catch_block_rethrown [where now = now])
  next
    case False
    with Nil show ?thesis by auto
  qed
next
  case (Cons seat seats)
  obtain seatId sectionId where seat: "seat = (seatId, sectionId)" by (cases seat)
  let ?hk = "hold_key seatId"
  show ?case
  proof (cases "fault fs")
    case True
    with Cons.prems seat have cb: "catch_block (tl fs) s b locked = (out, s')" by simp
    with Cons.prems(2) have "out = Rethrown" by (metis catch_block_not_returned fst_conv)
    with cb show ?thesis by (auto dest: catch_block_rethrown [where now = now])
  next
    case nofault: False
    show ?thesis
    proof (cases "visible now s ?hk = None")
      case free: True
      let ?s1 = "s(?hk \<mapsto> (JSON_stringify (hold_object u b sectionId (now + HOLD_TTL_SECONDS * 1000)), Some (now + HOLD_TTL_SECONDS * 1000)))"
      from Cons.prems nofault free seat
      have rec: "lock_seats (tl fs) ?s1 now u b seats (locked @ [seatId]) = (out, s')"
        by (simp add: set_nx_ex_cases Let_def)
      from Cons.IH [OF rec Cons.prems(2)]
      have "visible now s' = (\<lambda>k. if k = booking_key b \<or> k \<in> hold_key ` set (locked @ [seatId]) then None else visible now ?s1 k)" .
      with free show ?thesis
        by (auto simp: fun_eq_iff visible_upd_live)
    next
      case held: False
      obtain ok fs2 s2 where rb: "rollback (tl fs) s b locked = (ok, fs2, s2)"
        by (cases "rollback (tl fs) s b locked") auto
      show ?thesis
      proof (cases ok)
        case True
        with Cons.prems nofault held seat rb have "s' = s2"
          by (auto simp: set_nx_ex_cases Let_def)
        with rb True show ?thesis by (auto dest: rollback_visible_done [where now = now])
      next
        case False
        with Cons.prems nofault held seat rb have cb: "catch_block fs2 s2 b locked = (out, s')"
          by (auto simp: set_nx_ex_cases Let_def)
        with Cons.prems(2) have "out = Rethrown" by (metis catch_block_not_returned fst_conv)
        with cb have v: "visible now s' = (\<lambda>k. if k = booking_key b \<or> k \<in> hold_key ` set locked then None else visible now s2 k)"
          by (auto dest: catch_block_rethrown [where now = now])
        have "\<And>k. \<not> (k = booking_key b \<or> k \<in> hold_key ` set locked) \<Longrightarrow> s2 k = s k"
          using rollback_partial [OF rb] by blast
        then have "\<And>k. \<not> (k = booking_key b \<or> k \<in> hold_key ` set locked) \<Longrightarrow> visible now s2 k = visible now s k"
          by (simp add: visible_def)
        with v show ?thesis by (auto simp: fun_eq_iff)
      qed
    qed
  qed
qed

lemma lock_seats_preserves:
  "lock_seats fs s now u b seats locked = (out, s') \<Longrightarrow> visible now s k = Some e \<Longrightarrow>
   k \<noteq> booking_key b \<Longrightarrow> k \<notin> hold_key ` set locked \<Longrightarrow> s' k = s k"
proof (induction seats arbitrary: fs s locked)
  case Nil
  show ?case
  proof (cases "fault fs")
    case True
    with Nil have "catch_block (tl fs) s b locked = (out, s')" by simp
    from catch_block_frame [OF this, of k] Nil show ?thesis by auto
  next
    case False
    with Nil show ?thesis by (auto simp: redis_set_ex_def)
  qed
next
  case (Cons seat seats)
  obtain seatId sectionId where seat: "seat = (seatId, sectionId)" by (cases seat)
  let ?hk = "hold_key seatId"
  show ?case
  proof (cases "fault fs")
    case True
    with Cons.prems seat have "catch_block (tl fs) s b locked = (out, s')" by simp
    from catch_block_frame [OF this, of k] Cons.prems show ?thesis by auto
  next
    case nofault: False
    show ?thesis
    proof (cases "visible now s ?hk = None")
      case free: True
      let ?s1 = "s(?hk \<mapsto> (JSON_stringify (hold_object u b sectionId (now + HOLD_TTL_SECONDS * 1000)), Some (now + HOLD_TTL_SECONDS * 1000)))"
      from Cons.prems nofault free seat
      have rec: "lock_seats (tl fs) ?s1 now u b seats (locked @ [seatId]) = (out, s')"
        by (simp add: set_nx_ex_cases Let_def)
      from free Cons.prems(2) have neq: "k \<noteq> ?hk" by auto
      then have "visible now ?s1 k = Some e" using Cons.prems(2) by (simp add: visible_def)
      from Cons.IH [OF rec this Cons.prems(3)] neq Cons.prems(4)
      show ?thesis by auto
    next
      case held: False
      obtain ok fs2 s2 where rb: "rollback (tl fs) s b locked = (ok, fs2, s2)"
        by (cases "rollback (tl fs) s b locked") auto
      have s2: "s2 k = s k" using rollback_partial [OF rb, of k] Cons.prems by auto
      show ?thesis
      proof (cases ok)
        case True
        with Cons.prems nofault held seat rb have "s' = s2"
          by (auto simp: set_nx_ex_cases Let_def)
        with s2 show ?thesis by simp
      next
        case False
        with Cons.prems nofault held seat rb have cb: "catch_block fs2 s2 b locked = (out, s')"
          by (auto simp: set_nx_ex_cases Let_def)
        from catch_block_frame [OF cb, of k] Cons.prems s2 show ?thesis by auto
      qed
    qed
  qed
qed

lemma lock_seats_true_step:
  assumes "lock_seats fs s now u b ((seatId, sectionId) # seats) locked = (Returned True, s')"
  shows "visible now s (hold_key seatId) = None \<and>
         lock_seats (tl fs) (s(hold_key seatId \<mapsto> (JSON_stringify (hold_object u b sectionId (now + HOLD_TTL_SECONDS * 1000)), Some (now + HOLD_TTL_SECONDS * 1000))))
            now u b seats (locked @ [seatId]) = (Returned True, s')"
proof (cases "fault fs")
  case True
  with assms have "catch_block (tl fs) s b locked = (Returned True, s')" by simp
  then show ?thesis by (metis catch_block_not_returned fst_conv)
next
  case nofault: False
  show ?thesis
  proof (cases "visible now s (hold_key seatId) = None")
    case True
    with assms nofault show ?thesis by (simp add: set_nx_ex_cases Let_def)
  next
    case False
    obtain ok fs2 s2 where rb: "rollback (tl fs) s b locked = (ok, fs2, s2)"
      by (cases "rollback (tl fs) s b locked") auto
    with assms nofault False have "ok \<Longrightarrow> False" "\<not> ok \<Longrightarrow> catch_block fs2 s2 b locked = (Returned True, s')"
      by (auto simp: set_nx_ex_cases Let_def)
    then show ?thesis by (metis catch_block_not_returned fst_conv)
  qed
qed

lemma lock_seats_true_free:
  "lock_seats fs s now u b seats locked = (Returned True, s') \<Longrightarrow> x \<in> set seats \<Longrightarrow>
   visible now s (hold_key (fst x)) = None"
proof (induction seats arbitrary: fs s locked)
  case Nil
  then show ?case by simp
next
  case (Cons seat seats)
  obtain seatId sectionId where seat: "seat = (seatId, sectionId)" by (cases seat)
  let ?s1 = "s(hold_key seatId \<mapsto> (JSON_stringify (hold_object u b sectionId (now + HOLD_TTL_SECONDS * 1000)), Some (now + HOLD_TTL_SECONDS * 1000)))"
  from lock_seats_true_step [OF Cons.prems(1) [unfolded seat]]
  have free: "visible now s (hold_key seatId) = None"
    and rec: "lock_seats (tl fs) ?s1 now u b seats (locked @ [seatId]) = (Returned True, s')" by auto
  show ?case
  proof (cases "x = seat")
    case True
    with free seat show ?thesis by simp
  next
    case False
    with Cons.prems(2) have "x \<in> set seats" by simp
    from Cons.IH [OF rec this] have "visible now ?s1 (hold_key (fst x)) = None" .
    then show ?thesis by (auto simp: visible_def split: if_splits)
  qed
qed

lemma lock_seats_true_store:
  "lock_seats fs s now u b seats locked = (Returned True, s') \<Longrightarrow>
   s' (booking_key b) =
     Some (JSON_stringify (JArr (map JStr (locked @ map fst seats))), Some (now + HOLD_TTL_SECONDS * 1000)) \<and>
   (\<forall>(seatId, sectionId) \<in> set seats. s' (hold_key seatId) =
     Some (JSON_stringify (hold_object u b sectionId (now + HOLD_TTL_SECONDS * 1000)), Some (now + HOLD_TTL_SECONDS * 1000))) \<and>
   (\<forall>k. k \<noteq> booking_key b \<and> k \<notin> hold_key ` fst ` set seats \<longrightarrow> s' k = s k)"
proof (induction seats arbitrary: fs s locked)
  case Nil
  have "\<not> fault fs"
  proof
    assume "fault fs"
    with Nil have "catch_block (tl fs) s b locked = (Returned True, s')" by simp
    then show False by (metis catch_block_not_returned fst_conv)
  qed
  with Nil show ?case by (auto simp: redis_set_ex_def)
next
  case (Cons seat seats)
  obtain seatId sectionId where seat: "seat = (seatId, sectionId)" by (cases seat)
  let ?e = "(JSON_stringify (hold_object u b sectionId (now + HOLD_TTL_SECONDS * 1000)), Some (now + HOLD_TTL_SECONDS * 1000))"
  let ?s1 = "s(hold_key seatId \<mapsto> ?e)"
  from lock_seats_true_step [OF Cons.prems(1) [unfolded seat]]
  have free: "visible now s (hold_key seatId) = None"
    and rec: "lock_seats (tl fs) ?s1 now u b seats (locked @ [seatId]) = (Returned True, s')" by auto
  note IH = Cons.IH [OF rec]
  have notin: "hold_key seatId \<notin> hold_key ` fst ` set seats"
  proof
    assume "hold_key seatId \<in> hold_key ` fst ` set seats"
    then obtain x where "x \<in> set seats" "fst x = seatId" by auto
    from lock_seats_true_free [OF rec \<open>x \<in> set seats\<close>] \<open>fst x = seatId\<close>
    have "visible now ?s1 (hold_key seatId) = None" by simp
    then show False by (simp add: visible_def)
  qed
  with IH have first: "s' (hold_key seatId) = Some ?e" by simp
  from IH have idx: "s' (booking_key b) =
     Some (JSON_stringify (JArr (map JStr (locked @ map fst (seat # seats)))), Some (now + HOLD_TTL_SECONDS * 1000))"
    by (simp add: seat)
  from IH first have holds: "\<forall>(seatId, sectionId) \<in> set (seat # seats). s' (hold_key seatId) =
     Some (JSON_stringify (hold_object u b sectionId (now + HOLD_TTL_SECONDS * 1000)), Some (now + HOLD_TTL_SECONDS * 1000))"
    by (auto simp: seat)
  from IH have frame: "\<forall>k. k \<noteq> booking_key b \<and> k \<notin> hold_key ` fst ` set (seat # seats) \<longrightarrow> s' k = s k"
    by (auto simp: seat)
  from idx holds frame show ?case by blast
qed

lemma errors_0_fault: "errors fs = 0 \<Longrightarrow> \<not> fault fs"
  by (cases fs) (auto simp: errors_def fault_def)

lemma errors_0_tl: "errors fs = 0 \<Longrightarrow> errors (tl fs) = 0"
  by (cases fs) (auto simp: errors_def split: if_splits)

lemma rollback_dels_nofault: "errors fs = 0 \<Longrightarrow> fst (rollback_dels fs s ks)"
  by (induction fs s ks rule: rollback_dels.induct) (auto simp: errors_0_fault errors_0_tl)

lemma lock_seats_nofault:
  "errors fs = 0 \<Longrightarrow> fst (lock_seats fs s now u b seats locked) =
     Returned (distinct (map fst seats) \<and> (\<forall>x \<in> set seats. visible now s (hold_key (fst x)) = None))"
proof (induction seats arbitrary: fs s locked)
  case Nil
  then show ?case by (simp add: errors_0_fault)
next
  case (Cons seat seats)
  obtain seatId sectionId where seat: "seat = (seatId, sectionId)" by (cases seat)
  let ?e = "(JSON_stringify (hold_object u b sectionId (now + HOLD_TTL_SECONDS * 1000)), Some (now + HOLD_TTL_SECONDS * 1000))"
  let ?s1 = "s(hold_key seatId \<mapsto> ?e)"
  note nf = errors_0_fault [OF Cons.prems] and tl0 = errors_0_tl [OF Cons.prems]
  show ?case
  proof (cases "visible now s (hold_key seatId) = None")
    case True
    have eq: "(\<forall>x \<in> set seats. visible now ?s1 (hold_key (fst x)) = None) \<longleftrightarrow>
          seatId \<notin> fst ` set seats \<and> (\<forall>x \<in> set seats. visible now s (hold_key (fst x)) = None)"
      by (auto simp: visible_def)
    have step: "lock_seats fs s now u b (seat # seats) locked =
          lock_seats (tl fs) ?s1 now u b seats (locked @ [seatId])"
      using True nf by (simp add: seat set_nx_ex_cases Let_def)
    show ?thesis
      unfolding step Cons.IH [OF tl0, of ?s1 "locked @ [seatId]"] eq using True by (auto simp: seat)
  next
    case False
    obtain fs2 s2 where "rollback (tl fs) s b locked = (True, fs2, s2)"
      using rollback_dels_nofault [OF tl0, of s "map hold_key locked @ [booking_key b]"]
      by (cases "rollback (tl fs) s b locked") (auto simp: rollback_def)
    with False nf show ?thesis
      by (auto simp: seat set_nx_ex_cases Let_def)
  qed
qed

lemma errors_tl: "errors (tl fs) \<le> errors fs"
  by (cases fs) (auto simp: errors_def)

lemma errors_tl_fault: "fault fs \<Longrightarrow> Suc (errors (tl fs)) = errors fs"
  by (cases fs) (auto simp: errors_def fault_def)

lemma rollback_dels_errors:
  "rollback_dels fs s ks = (ok, fs', s') \<Longrightarrow> errors fs' \<le> errors fs \<and> (\<not> ok \<longrightarrow> errors fs' < errors fs)"
proof (induction fs s ks rule: rollback_dels.induct)
  case (1 fs s)
  then show ?case by simp
next
  case (2 fs s k ks)
  show ?case
  proof (cases "fault fs")
    case True
    with 2 errors_tl_fault [OF True] show ?thesis by auto
  next
    case False
    with 2 errors_tl [of fs] show ?thesis by fastforce
  qed
qed

lemma catch_block_threw:
  assumes "catch_block fs s b locked = (RollbackThrew, s')"
  shows "1 \<le> errors fs"
proof -
  from assms obtain fs' where "rollback fs s b locked = (False, fs', s')"
    by (auto simp: catch_block_def split: prod.splits bool.splits)
  from rollback_dels_errors [OF this [unfolded rollback_def]] show ?thesis by simp
qed

lemma lock_seats_threw:
  "lock_seats fs s now u b seats locked = (RollbackThrew, s') \<Longrightarrow> 2 \<le> errors fs"
proof (induction seats arbitrary: fs s locked)
  case Nil
  show ?case
  proof (cases "fault fs")
    case True
    with Nil have "catch_block (tl fs) s b locked = (RollbackThrew, s')" by simp
    from catch_block_threw [OF this] errors_tl_fault [OF True] show ?thesis by simp
  next
    case False
    with Nil show ?thesis by simp
  qed
next
  case (Cons seat seats)
  obtain seatId sectionId where seat: "seat = (seatId, sectionId)" by (cases seat)
  show ?case
  proof (cases "fault fs")
    case True
    with Cons.prems seat have "catch_block (tl fs) s b locked = (RollbackThrew, s')" by simp
    from catch_block_threw [OF this] errors_tl_fault [OF True] show ?thesis by simp
  next
    case nofault: False
    show ?thesis
    proof (cases "visible now s (hold_key seatId) = None")
      case True
      with Cons.prems nofault seat
      have "lock_seats (tl fs) (s(hold_key seatId \<mapsto> (JSON_stringify (hold_object u b sectionId (now + HOLD_TTL_SECONDS * 1000)), Some (now + HOLD_TTL_SECONDS * 1000))))
              now u b seats (locked @ [seatId]) = (RollbackThrew, s')"
        by (simp add: set_nx_ex_cases Let_def)
      from Cons.IH [OF this] errors_tl [of fs] show ?thesis by simp
    next
      case False
      obtain ok fs2 s2 where rb: "rollback (tl fs) s b locked = (ok, fs2, s2)"
        by (cases "rollback (tl fs) s b locked") auto
      with Cons.prems nofault False seat
      have "\<not> ok" and cb: "catch_block fs2 s2 b locked = (RollbackThrew, s')"
        by (auto simp: set_nx_ex_cases Let_def split: if_splits bool.splits)
      from rollback_dels_errors [OF rb [unfolded rollback_def]] \<open>\<not> ok\<close>
      have "errors fs2 < errors (tl fs)" by simp
      with catch_block_threw [OF cb] errors_tl [of fs] show ?thesis by simp
    qed
  qed
qed

lemma rollback_index_deleted:
  assumes "rollback fs s b locked = (True, fs', s')"
  shows "s' (booking_key b) = None"
  using rollback_dels_done [OF assms [unfolded rollback_def]] by simp

lemma catch_block_index_deleted:
  assumes "catch_block fs s b locked = (Rethrown, s')"
  shows "s' (booking_key b) = None"
proof -
  from assms obtain fs' where "rollback fs s b locked = (True, fs', s')"
    by (auto simp: catch_block_def split: prod.splits bool.splits)
  then show ?thesis by (rule rollback_index_deleted)
qed

lemma lock_seats_index_deleted:
  "lock_seats fs s now u b seats locked = (out, s') \<Longrightarrow> out = Returned False \<or> out = Rethrown \<Longrightarrow>
   s' (booking_key b) = None"
proof (induction seats arbitrary: fs s locked)
  case Nil
  show ?case
  proof (cases "fault fs")
    case True
    with Nil have cb: "catch_block (tl fs) s b locked = (out, s')" by simp
    with Nil(2) have "out = Rethrown" by (metis catch_block_not_returned fst_conv)
    with cb show ?thesis by (auto dest: catch_block_index_deleted)
  next
    case False
    with Nil show ?thesis by auto
  qed
next
  case (Cons seat seats)
  obtain seatId sectionId where seat: "seat = (seatId, sectionId)" by (cases seat)
  show ?case
  proof (cases "fault fs")
    case True
    with Cons.prems seat have cb: "catch_block (tl fs) s b locked = (out, s')" by simp
    with Cons.prems(2) have "out = Rethrown" by (metis catch_block_not_returned fst_conv)
    with cb show ?thesis by (auto dest: catch_block_index_deleted)
  next
    case nofault: False
    show ?thesis
    proof (cases "visible now s (hold_key seatId) = None")
      case True
      with Cons.prems nofault seat
      have "lock_seats (tl fs) (s(hold_key seatId \<mapsto> (JSON_stringify (hold_object u b sectionId (now + HOLD_TTL_SECONDS * 1000)), Some (now + HOLD_TTL_SECONDS * 1000))))
              now u b seats (locked @ [seatId]) = (out, s')"
        by (simp add: set_nx_ex_cases Let_def)
      from Cons.IH [OF this Cons.prems(2)] show ?thesis .
    next
      case False
      obtain ok fs2 s2 where rb: "rollback (tl fs) s b locked = (ok, fs2, s2)"
        by (cases "rollback (tl fs) s b locked") auto
      show ?thesis
      proof (cases ok)
        case True
        with Cons.prems nofault False seat rb have "s' = s2"
          by (auto simp: set_nx_ex_cases Let_def)
        with rb True show ?thesis by (auto dest: rollback_index_deleted)
      next
        case nok: False
        with Cons.prems nofault False seat rb have cb: "catch_block fs2 s2 b locked = (out, s')"
          by (auto simp: set_nx_ex_cases Let_def)
        with Cons.prems(2) have "out = Rethrown" by (metis catch_block_not_returned fst_conv)
        with cb show ?thesis by (auto dest: catch_block_index_deleted)
      qed
    qed
  qed
qed

lemma createHold_held:
  assumes "redis_get s now (hold_key seatId) \<noteq> None"
  shows "createHold s now seatId userId bookingId sectionId = (False, s)"
  using assms by (simp add: createHold_def set_nx_ex_cases redis_get_None_iff Let_def)

lemma createHold_success:
  assumes "fst (createHold s now seatId userId bookingId sectionId)"
  shows "snd (createHold s now seatId userId bookingId sectionId) (hold_key seatId) =
           Some (JSON_stringify (hold_object userId bookingId sectionId (now + HOLD_TTL_SECONDS * 1000)),
                 Some (now + HOLD_TTL_SECONDS * 1000))"
  using assms
  by (simp add: createHold_def set_nx_ex_cases redis_set_ex_def Let_def split: if_splits)

text \<open>
  Claim C1, as the code has it. \<^verbatim>\<open>createMultipleHolds\<close> is all-or-nothing on every exit
  but one. Whenever the call returns true, every requested seat has its hold stored under
  the given bookingId, with the TTL of 120 seconds, and the booking index lists all
  requested seats under the same TTL; no other key has changed. Whenever the call returns
  false (contention) or rethrows the store error it caught, the store as the commands see
  it equals the store before the call with the booking index of that bookingId deleted:
  every hold acquired in the call is gone. The remaining exit is an error thrown by a
  delete of the rollback in the \<^verbatim>\<open>catch\<close> block; it takes two store errors at least, so a
  schedule with at most one store error never leaves through it. Without store errors the
  call returns true exactly when the requested seats are pairwise distinct and none of
  them is held.
\<close>

theorem createMultipleHolds_all_or_nothing:
  assumes "createMultipleHolds fs s now seats userId bookingId = (out, s')"
  shows "(out = Returned True \<longrightarrow>
            (\<forall>(seatId, sectionId) \<in> set seats.
               s' (hold_key seatId) =
                 Some (JSON_stringify (hold_object userId bookingId sectionId (now + HOLD_TTL_SECONDS * 1000)),
                       Some (now + HOLD_TTL_SECONDS * 1000))) \<and>
            s' (booking_key bookingId) =
              Some (JSON_stringify (JArr (map JStr (map fst seats))), Some (now + HOLD_TTL_SECONDS * 1000)) \<and>
            (\<forall>k. k \<noteq> booking_key bookingId \<and> k \<notin> hold_key ` fst ` set seats \<longrightarrow> s' k = s k)) \<and>
         (out = Returned False \<or> out = Rethrown \<longrightarrow>
            visible now s' = (visible now s)(booking_key bookingId := None)) \<and>
         (errors fs \<le> 1 \<longrightarrow> out \<noteq> RollbackThrew) \<and>
         (errors fs = 0 \<longrightarrow>
            out = Returned (distinct (map fst seats) \<and>
                            (\<forall>x \<in> set seats. redis_get s now (hold_key (fst x)) = None)))"
proof -
  from assms have run: "lock_seats fs s now userId bookingId seats [] = (out, s')"
    by (simp add: createMultipleHolds_def)
  have a: "out = Returned True \<longrightarrow>
            (\<forall>(seatId, sectionId) \<in> set seats.
               s' (hold_key seatId) =
                 Some (JSON_stringify (hold_object userId bookingId sectionId (now + HOLD_TTL_SECONDS * 1000)),
                       Some (now + HOLD_TTL_SECONDS * 1000))) \<and>
            s' (booking_key bookingId) =
              Some (JSON_stringify (JArr (map JStr (map fst seats))), Some (now + HOLD_TTL_SECONDS * 1000)) \<and>
            (\<forall>k. k \<noteq> booking_key bookingId \<and> k \<notin> hold_key ` fst ` set seats \<longrightarrow> s' k = s k)"
    using lock_seats_true_store [of fs s now userId bookingId seats "[]" s'] run by simp
  have b: "out = Returned False \<or> out = Rethrown \<longrightarrow>
            visible now s' = (visible now s)(booking_key bookingId := None)"
    using lock_seats_rolled_back [OF run] by (auto simp: fun_eq_iff)
  have c: "errors fs \<le> 1 \<longrightarrow> out \<noteq> RollbackThrew"
    using lock_seats_threw [of fs s now userId bookingId seats "[]" s'] run by auto
  have d: "errors fs = 0 \<longrightarrow>
            out = Returned (distinct (map fst seats) \<and>
                            (\<forall>x \<in> set seats. redis_get s now (hold_key (fst x)) = None))"
  proof
    assume "errors fs = 0"
    show "out = Returned (distinct (map fst seats) \<and>
                            (\<forall>x \<in> set seats. redis_get s now (hold_key (fst x)) = None))"
      using lock_seats_nofault [OF \<open>errors fs = 0\<close>, of s now userId bookingId seats "[]"] run
      by (simp add: redis_get_None_iff)
  qed
  from a b c d show ?thesis by blast
qed

theorem createMultipleHolds_all_or_nothing_witness:
  "errors [] = 0 \<and>
   fst (createMultipleHolds [] Map.empty 1000 [(''A1'', ''s1''), (''A2'', ''s1'')] ''u1'' ''bk9'') = Returned True \<and>
   snd (createMultipleHolds [] Map.empty 1000 [(''A1'', ''s1''), (''A2'', ''s1'')] ''u1'' ''bk9'') (hold_key ''A2'') =
     Some (JSON_stringify (hold_object ''u1'' ''bk9'' ''s1'' 121000), Some 121000) \<and>
   snd (createMultipleHolds [] Map.empty 1000 [(''A1'', ''s1''), (''A2'', ''s1'')] ''u1'' ''bk9'') (booking_key ''bk9'') =
     Some (JSON_stringify (JArr [JStr ''A1'', JStr ''A2'']), Some 121000) \<and>
   fst (createMultipleHolds [] [hold_key ''A2'' \<mapsto> (''held'', None)] 1000
          [(''A1'', ''s1''), (''A2'', ''s1'')] ''u1'' ''bk9'') = Returned False \<and>
   visible 1000 (snd (createMultipleHolds [] [hold_key ''A2'' \<mapsto> (''held'', None)] 1000
          [(''A1'', ''s1''), (''A2'', ''s1'')] ''u1'' ''bk9'')) =
     (visible 1000 [hold_key ''A2'' \<mapsto> (''held'', None)])(booking_key ''bk9'' := None) \<and>
   fst (createMultipleHolds [False, True] Map.empty 1000
          [(''A1'', ''s1''), (''A2'', ''s1'')] ''u1'' ''bk9'') = Rethrown \<and>
   visible 1000 (snd (createMultipleHolds [False, True] Map.empty 1000
          [(''A1'', ''s1''), (''A2'', ''s1'')] ''u1'' ''bk9'')) =
     (visible 1000 Map.empty)(booking_key ''bk9'' := None)"
proof -
  let ?seats = "[(''A1'', ''s1''), (''A2'', ''s1'')]"
  let ?held = "[hold_key ''A2'' \<mapsto> (''held'', None :: int option)]"
  let ?r1 = "createMultipleHolds [] Map.empty 1000 ?seats ''u1'' ''bk9''"
  let ?r2 = "createMultipleHolds [] ?held 1000 ?seats ''u1'' ''bk9''"
  let ?r3 = "createMultipleHolds [False, True] Map.empty 1000 ?seats ''u1'' ''bk9''"
  note t1 = createMultipleHolds_all_or_nothing [OF surjective_pairing, of "[]" Map.empty 1000 ?seats "''u1''" "''bk9''"]
  note t2 = createMultipleHolds_all_or_nothing [OF surjective_pairing, of "[]" ?held 1000 ?seats "''u1''" "''bk9''"]
  note t3 = createMultipleHolds_all_or_nothing [OF surjective_pairing, of "[False, True]" Map.empty 1000 ?seats "''u1''" "''bk9''"]
  have e: "errors [] = 0" by (simp add: errors_def)
  have o1: "fst ?r1 = Returned True"
    using t1 e by (simp add: redis_get_def visible_def)
  have o2: "fst ?r2 = Returned False"
    using t2 e by (simp add: redis_get_def visible_def live_def)
  have o3: "fst ?r3 = Rethrown"
    by (simp add: createMultipleHolds_def fault_def set_nx_ex_cases visible_def Let_def
          catch_block_def rollback_def redis_del_def)
  have c1: "snd ?r1 (hold_key ''A2'') =
      Some (JSON_stringify (hold_object ''u1'' ''bk9'' ''s1'' 121000), Some 121000)"
    and c2: "snd ?r1 (booking_key ''bk9'') = Some (JSON_stringify (JArr [JStr ''A1'', JStr ''A2'']), Some 121000)"
    using t1 o1 by (simp_all add: HOLD_TTL_SECONDS_def)
  have c3: "visible 1000 (snd ?r2) = (visible 1000 ?held)(booking_key ''bk9'' := None)"
    using t2 o2 by simp
  have c4: "visible 1000 (snd ?r3) = (visible 1000 Map.empty)(booking_key ''bk9'' := None)"
    using t3 o3 by simp
  from e o1 c1 c2 o2 c3 o3 c4 show ?thesis by blast
qed

text \<open>
  The claim as stated has every failed call roll back. When the store fails a second
  time, at a delete of the rollback in the \<^verbatim>\<open>catch\<close> block, that error leaves the call
  and the rollback is cut short: here the hold of \<^verbatim>\<open>A1\<close>, acquired before the conditional
  create for \<^verbatim>\<open>A2\<close> threw, is still stored and live after the failed call.
\<close>

theorem createMultipleHolds_rollback_interrupted:
  "createMultipleHolds [False, True, True] Map.empty 1000 [(''A1'', ''s1''), (''A2'', ''s1'')] ''u1'' ''bk9'' =
     (RollbackThrew,
      [hold_key ''A1'' \<mapsto> (JSON_stringify (hold_object ''u1'' ''bk9'' ''s1'' 121000), Some 121000)]) \<and>
   redis_get [hold_key ''A1'' \<mapsto> (JSON_stringify (hold_object ''u1'' ''bk9'' ''s1'' 121000), Some 121000)]
     1000 (hold_key ''A1'') = Some (JSON_stringify (hold_object ''u1'' ''bk9'' ''s1'' 121000))"
  by (simp add: createMultipleHolds_def fault_def set_nx_ex_cases visible_def live_def redis_get_def Let_def
        catch_block_def rollback_def redis_del_def HOLD_TTL_SECONDS_def
      del: JSON_stringify.simps)

text \<open>
  Claim C2. At most one live hold per seat. While a live hold for \<open>seatId\<close> is present,
  \<^verbatim>\<open>createHold\<close> returns false and leaves the store as it is; so does the conditional
  create for that seat; \<^verbatim>\<open>createMultipleHolds\<close> on a list that contains the seat never
  returns true, returns false when no store error occurs, and leaves the existing hold
  entry untouched. Of two \<^verbatim>\<open>createHold\<close> calls for the same seat, the second within
  the TTL of the first, the second returns false when the first returned true.
\<close>

theorem hold_is_exclusive:
  "(redis_get s now (hold_key seatId) \<noteq> None \<longrightarrow>
      createHold s now seatId userId bookingId sectionId = (False, s) \<and>
      redis_set_nx_ex s now (hold_key seatId) payload HOLD_TTL_SECONDS = (None, s) \<and>
      (seatId \<in> fst ` set seats \<longrightarrow>
         fst (createMultipleHolds fs s now seats userId bookingId) \<noteq> Returned True \<and>
         (errors fs = 0 \<longrightarrow> fst (createMultipleHolds fs s now seats userId bookingId) = Returned False) \<and>
         snd (createMultipleHolds fs s now seats userId bookingId) (hold_key seatId) = s (hold_key seatId))) \<and>
   (fst (createHold s t1 seatId u1 b1 c1) \<and> t1 \<le> t2 \<and> t2 < t1 + HOLD_TTL_SECONDS * 1000 \<longrightarrow>
      createHold (snd (createHold s t1 seatId u1 b1 c1)) t2 seatId u2 b2 c2 =
        (False, snd (createHold s t1 seatId u1 b1 c1)))"
proof (intro conjI impI)
  assume held: "redis_get s now (hold_key seatId) \<noteq> None"
  then show "createHold s now seatId userId bookingId sectionId = (False, s)"
    by (rule createHold_held)
  from held show "redis_set_nx_ex s now (hold_key seatId) payload HOLD_TTL_SECONDS = (None, s)"
    by (simp add: set_nx_ex_cases redis_get_None_iff)
  assume mem: "seatId \<in> fst ` set seats"
  then obtain x where x: "x \<in> set seats" "fst x = seatId" by auto
  obtain out s' where run: "lock_seats fs s now userId bookingId seats [] = (out, s')"
    by (cases "lock_seats fs s now userId bookingId seats []") auto
  from held obtain e where vis: "visible now s (hold_key seatId) = Some e"
    by (auto simp: redis_get_None_iff)
  show "fst (createMultipleHolds fs s now seats userId bookingId) \<noteq> Returned True"
  proof
    assume "fst (createMultipleHolds fs s now seats userId bookingId) = Returned True"
    with run have "lock_seats fs s now userId bookingId seats [] = (Returned True, s')"
      by (simp add: createMultipleHolds_def)
    from lock_seats_true_free [OF this x(1)] x(2) vis show False by simp
  qed
  from lock_seats_preserves [OF run vis] run
  show "snd (createMultipleHolds fs s now seats userId bookingId) (hold_key seatId) = s (hold_key seatId)"
    by (simp add: createMultipleHolds_def)
  assume "errors fs = 0"
  have "\<not> (\<forall>x \<in> set seats. visible now s (hold_key (fst x)) = None)"
    using x vis by force
  with lock_seats_nofault [OF \<open>errors fs = 0\<close>, of s now userId bookingId seats "[]"]
  show "fst (createMultipleHolds fs s now seats userId bookingId) = Returned False"
    by (simp add: createMultipleHolds_def)
next
  assume a: "fst (createHold s t1 seatId u1 b1 c1) \<and> t1 \<le> t2 \<and> t2 < t1 + HOLD_TTL_SECONDS * 1000"
  let ?s1 = "snd (createHold s t1 seatId u1 b1 c1)"
  from a createHold_success [of s t1 seatId u1 b1 c1]
  have "redis_get ?s1 t2 (hold_key seatId) \<noteq> None"
    by (simp add: redis_get_def visible_def live_def)
  then show "createHold ?s1 t2 seatId u2 b2 c2 = (False, ?s1)"
    by (rule createHold_held)
qed

theorem hold_is_exclusive_witness:
  "redis_get [hold_key ''A1'' \<mapsto> (''held'', Some 5000)] 1000 (hold_key ''A1'') \<noteq> None \<and>
   createHold [hold_key ''A1'' \<mapsto> (''held'', Some 5000)] 1000 ''A1'' ''u2'' ''bk2'' ''s2'' =
     (False, [hold_key ''A1'' \<mapsto> (''held'', Some 5000)]) \<and>
   ''A1'' \<in> fst ` set [(''A2'', ''s2''), (''A1'', ''s2'')] \<and> errors [] = 0 \<and>
   fst (createMultipleHolds [] [hold_key ''A1'' \<mapsto> (''held'', Some 5000)] 1000
          [(''A2'', ''s2''), (''A1'', ''s2'')] ''u2'' ''bk2'') = Returned False \<and>
   fst (createHold Map.empty 1000 ''A1'' ''u1'' ''bk1'' ''s1'') \<and> (1000::int) \<le> 2000 \<and>
   (2000::int) < 1000 + HOLD_TTL_SECONDS * 1000 \<and>
   \<not> fst (createHold (snd (createHold Map.empty 1000 ''A1'' ''u1'' ''bk1'' ''s1'')) 2000 ''A1'' ''u2'' ''bk2'' ''s2'')"
proof -
  have h1: "redis_get [hold_key ''A1'' \<mapsto> (''held'', Some 5000)] 1000 (hold_key ''A1'') \<noteq> None"
    by (simp add: redis_get_def visible_def live_def)
  have h2: "fst (createHold Map.empty 1000 ''A1'' ''u1'' ''bk1'' ''s1'')"
    by (simp add: createHold_def redis_set_nx_ex_def redis_get_def visible_def Let_def)
  have h3: "(2000::int) < 1000 + HOLD_TTL_SECONDS * 1000"
    by (simp add: HOLD_TTL_SECONDS_def)
  from h1 h2 h3
    hold_is_exclusive [of "[hold_key ''A1'' \<mapsto> (''held'', Some 5000)]" 1000 "''A1''" "''u2''" "''bk2''" "''s2''"
      "''x''" "[(''A2'', ''s2''), (''A1'', ''s2'')]" "[]" 1000 "''u1''" "''bk1''" "''s1''" 2000 "''u2''" "''bk2''" "''s2''"]
    hold_is_exclusive [of Map.empty 1000 "''A1''" "''u2''" "''bk2''" "''s2''"
      "''x''" "[]" "[]" 1000 "''u1''" "''bk1''" "''s1''" 2000 "''u2''" "''bk2''" "''s2''"]
  show ?thesis by (simp add: errors_def)
qed

text \<open>
  Claim C10, as the code has it. A \<^verbatim>\<open>createMultipleHolds\<close> that fails by returning false,
  or by rethrowing the store error it caught, leaves no booking index under the given
  bookingId, whatever was stored there before the call: it erases an entry that an
  earlier call had written.
\<close>

theorem failed_createMultipleHolds_erases_index:
  assumes "createMultipleHolds fs s now seats userId bookingId = (out, s')"
    and "out = Returned False \<or> out = Rethrown"
  shows "s' (booking_key bookingId) = None \<and> redis_get s' now (booking_key bookingId) = None"
proof -
  from assms(1) have "lock_seats fs s now userId bookingId seats [] = (out, s')"
    by (simp add: createMultipleHolds_def)
  from lock_seats_index_deleted [OF this assms(2)] show ?thesis
    by (simp add: redis_get_def visible_def)
qed

theorem failed_createMultipleHolds_erases_index_witness:
  "redis_get (snd (createHold Map.empty 0 ''A1'' ''u1'' ''bk1'' ''s1'')) 1000 (booking_key ''bk1'') = Some ''A1'' \<and>
   createMultipleHolds [] (snd (createHold Map.empty 0 ''A1'' ''u1'' ''bk1'' ''s1'')) 1000
      [(''A1'', ''s1'')] ''u2'' ''bk1'' =
     (Returned False, (snd (createHold Map.empty 0 ''A1'' ''u1'' ''bk1'' ''s1''))(booking_key ''bk1'' := None)) \<and>
   redis_get ((snd (createHold Map.empty 0 ''A1'' ''u1'' ''bk1'' ''s1''))(booking_key ''bk1'' := None))
      1000 (booking_key ''bk1'') = None"
proof -
  let ?s0 = "snd (createHold Map.empty 0 ''A1'' ''u1'' ''bk1'' ''s1'')"
  have s0: "?s0 = [hold_key ''A1'' \<mapsto>
                     (JSON_stringify (hold_object ''u1'' ''bk1'' ''s1'' 120000), Some 120000),
                   booking_key ''bk1'' \<mapsto> (''A1'', Some 120000)]"
    by (simp add: createHold_def set_nx_ex_cases visible_def redis_set_ex_def Let_def HOLD_TTL_SECONDS_def)
  have g: "redis_get ?s0 1000 (booking_key ''bk1'') = Some ''A1''"
    unfolding s0 by (simp add: redis_get_def visible_def live_def)
  have run: "createMultipleHolds [] ?s0 1000 [(''A1'', ''s1'')] ''u2'' ''bk1'' =
     (Returned False, ?s0(booking_key ''bk1'' := None))"
    unfolding s0
    by (simp add: createMultipleHolds_def fault_def set_nx_ex_cases visible_def live_def Let_def
          rollback_def redis_del_def)
  from failed_createMultipleHolds_erases_index [OF run] g run show ?thesis by simp
qed

text \<open>
  The claim as stated has every failed call erase the entry. A call that fails with an
  error thrown by a delete of the rollback itself may not reach the delete of the booking
  index: here the entry stored under \<^verbatim>\<open>bk9\<close> before the call is still read after it.
\<close>

theorem createMultipleHolds_rollback_error_keeps_index:
  "createMultipleHolds [False, True, True] [booking_key ''bk9'' \<mapsto> (''A7'', Some 5000)] 1000
      [(''A1'', ''s1''), (''A2'', ''s1'')] ''u1'' ''bk9'' =
     (RollbackThrew,
      [booking_key ''bk9'' \<mapsto> (''A7'', Some 5000),
       hold_key ''A1'' \<mapsto> (JSON_stringify (hold_object ''u1'' ''bk9'' ''s1'' 121000), Some 121000)]) \<and>
   redis_get [booking_key ''bk9'' \<mapsto> (''A7'', Some 5000),
       hold_key ''A1'' \<mapsto> (JSON_stringify (hold_object ''u1'' ''bk9'' ''s1'' 121000), Some 121000)]
     1000 (booking_key ''bk9'') = Some ''A7''"
  by (simp add: createMultipleHolds_def fault_def set_nx_ex_cases visible_def live_def redis_get_def Let_def
        catch_block_def rollback_def redis_del_def HOLD_TTL_SECONDS_def hold_key_def booking_key_def
      del: JSON_stringify.simps)

lemma small_cases: "(d::nat) < 10 \<Longrightarrow> d = 0 \<or> d = 1 \<or> d = 2 \<or> d = 3 \<or> d = 4 \<or> d = 5 \<or> d = 6 \<or> d = 7 \<or> d = 8 \<or> d = 9"
  by arith


lemma is_digit_digit_char: "d < 10 \<Longrightarrow> is_digit (digit_char d)"
  using small_cases [of d] by (auto simp: is_digit_def digit_char_def)

lemma digit_val_digit_char: "d < 10 \<Longrightarrow> digit_val (digit_char d) = d"
  using small_cases [of d] by (auto simp: digit_val_def digit_char_def)
























lemma getHold_fst_cong:
  "redis_get s' now (hold_key (js_to_string sid)) = redis_get s now (hold_key (js_to_string sid)) \<Longrightarrow>
   fst (getHold s' now sid) = fst (getHold s now sid)"
  by (simp add: getHold_def split: option.splits)

text \<open>
  Claim C7. After \<^verbatim>\<open>setSeatBooked(seatId)\<close> the permanent marker of the seat reads
  \<^verbatim>\<open>BOOKED\<close> and \<^verbatim>\<open>getRedisSeatStatus(seatId)\<close> answers \<^verbatim>\<open>BOOKED\<close> without touching
  the store, whatever hold is stored for the seat. \<^verbatim>\<open>setSeatBooked\<close> changes no key but
  the marker: every hold entry is as before, and \<^verbatim>\<open>getHold\<close> answers as before.
\<close>

theorem setSeatBooked_overrides:
  "getRedisSeatStatus (setSeatBooked s seatId) now seatId = (Some ''BOOKED'', setSeatBooked s seatId) \<and>
   redis_get (setSeatBooked s seatId) now (status_key seatId) = Some ''BOOKED'' \<and>
   (\<forall>k. k \<noteq> status_key seatId \<longrightarrow> setSeatBooked s seatId k = s k) \<and>
   (\<forall>other. setSeatBooked s seatId (hold_key other) = s (hold_key other) \<and>
            fst (getHold (setSeatBooked s seatId) now (JStr other)) = fst (getHold s now (JStr other)))"
proof -
  have st: "redis_get (setSeatBooked s seatId) now (status_key seatId) = Some ''BOOKED''"
    by (simp add: setSeatBooked_def redis_set_def redis_get_def visible_def live_def)
  have fr: "\<forall>k. k \<noteq> status_key seatId \<longrightarrow> setSeatBooked s seatId k = s k"
    by (simp add: setSeatBooked_def redis_set_def)
  have hd: "\<And>other. setSeatBooked s seatId (hold_key other) = s (hold_key other)"
    by (simp add: setSeatBooked_def redis_set_def)
  have "\<And>other. redis_get (setSeatBooked s seatId) now (hold_key (js_to_string (JStr other))) =
      redis_get s now (hold_key (js_to_string (JStr other)))"
    by (simp add: redis_get_def visible_def hd)
  then have gh: "\<And>other. fst (getHold (setSeatBooked s seatId) now (JStr other)) = fst (getHold s now (JStr other))"
    by (rule getHold_fst_cong)
  from st have "getRedisSeatStatus (setSeatBooked s seatId) now seatId = (Some ''BOOKED'', setSeatBooked s seatId)"
    by (simp add: getRedisSeatStatus_def)
  with st fr hd gh show ?thesis by blast
qed

theorem setSeatBooked_overrides_witness:
  "hold_key ''A1'' \<noteq> status_key ''A1'' \<and>
   redis_get (snd (createHold Map.empty 0 ''A1'' ''u1'' ''bk1'' ''s1'')) 1000 (hold_key ''A1'') \<noteq> None \<and>
   setSeatBooked (snd (createHold Map.empty 0 ''A1'' ''u1'' ''bk1'' ''s1'')) ''A1'' (hold_key ''A1'') =
     snd (createHold Map.empty 0 ''A1'' ''u1'' ''bk1'' ''s1'') (hold_key ''A1'') \<and>
   fst (getRedisSeatStatus (setSeatBooked (snd (createHold Map.empty 0 ''A1'' ''u1'' ''bk1'' ''s1'')) ''A1'') 1000 ''A1'') =
     Some ''BOOKED''"
proof -
  let ?s0 = "snd (createHold Map.empty 0 ''A1'' ''u1'' ''bk1'' ''s1'')"
  have "fst (createHold Map.empty 0 ''A1'' ''u1'' ''bk1'' ''s1'')"
    by (simp add: createHold_def set_nx_ex_cases visible_def Let_def)
  from createHold_success [OF this]
  have "redis_get ?s0 1000 (hold_key ''A1'') \<noteq> None"
    by (simp add: redis_get_def visible_def live_def HOLD_TTL_SECONDS_def)
  with setSeatBooked_overrides [of ?s0 "''A1''" 1000] show ?thesis by simp
qed



lemma JSON_parse_empty [simp]: "JSON_parse [] = None"
  by (simp add: JSON_parse_def skip_ws_def)

lemma get_prop_Some_not_null: "get_prop hold name = Some v \<Longrightarrow> hold \<noteq> JNull"
  by (auto simp: get_prop_def)

lemma js_less_than_int [simp]: "js_less_than (JNum e 0) now \<longleftrightarrow> e < now"
  by (simp add: js_less_than_def to_number_def)

lemma truthy_num [simp]: "truthy (JNum e d) \<longleftrightarrow> e \<noteq> 0"
  by (simp add: truthy_def)

lemma getHold_absent:
  "redis_get s now (hold_key seatId) = None \<Longrightarrow> getHold s now (JStr seatId) = (None, s)"
  by (simp add: getHold_def)

lemma getHold_unparsable:
  "redis_get s now (hold_key seatId) = Some data \<Longrightarrow>
   JSON_parse data = None \<or> JSON_parse data = Some JNull \<Longrightarrow>
   getHold s now (JStr seatId) = (None, s)"
  by (auto simp: getHold_def)

lemma getHold_expired:
  assumes "redis_get s now (hold_key seatId) = Some data" "JSON_parse data = Some hold"
    "get_prop hold ''expiresAt'' = Some (JNum e 0)" "e \<noteq> 0" "e < now"
  shows "getHold s now (JStr seatId) = (None, redis_del s (hold_key seatId))"
proof -
  from assms have "data \<noteq> []" "hold \<noteq> JNull" by (auto simp: get_prop_def)
  with assms show ?thesis by (simp add: getHold_def truthy_opt_def)
qed

lemma getHold_live:
  assumes "redis_get s now (hold_key seatId) = Some data" "JSON_parse data = Some hold" "hold \<noteq> JNull"
    "get_prop hold ''expiresAt'' = None \<or> get_prop hold ''expiresAt'' = Some (JNum e 0) \<and> (e = 0 \<or> now \<le> e)"
  shows "getHold s now (JStr seatId) = (Some hold, s)"
proof -
  from assms have "data \<noteq> []" by auto
  with assms show ?thesis by (auto simp: getHold_def truthy_opt_def)
qed

lemma get_prop_hold_object:
  "get_prop (hold_object u b c e) ''userId'' = Some (JStr u)"
  "get_prop (hold_object u b c e) ''bookingId'' = Some (JStr b)"
  "get_prop (hold_object u b c e) ''sectionId'' = Some (JStr c)"
  "get_prop (hold_object u b c e) ''expiresAt'' = Some (JNum e 0)"
  by (simp_all add: hold_object_def get_prop_def)

lemma hold_object_not_null [simp]: "hold_object u b c e \<noteq> JNull"
  by (simp add: hold_object_def)

lemma redis_get_single:
  "live now (v, t) \<Longrightarrow> redis_get (s(k \<mapsto> (v, t))) now k = Some v"
  by (simp add: redis_get_def visible_def)

lemma getHold_Some_store: "getHold s now sid = (Some hold, s1) \<Longrightarrow> s1 = s"
  by (auto simp: getHold_def split: option.splits if_splits)

lemma getHold_None_store:
  "getHold s now sid = (None, s1) \<Longrightarrow>
   s1 = s \<or>
   (s1 = redis_del s (hold_key (js_to_string sid)) \<and>
    (\<exists>data hold. redis_get s now (hold_key (js_to_string sid)) = Some data \<and>
       JSON_parse data = Some hold \<and> truthy_opt (get_prop hold ''expiresAt'') \<and>
       js_less_than (the (get_prop hold ''expiresAt'')) now))"
  by (auto simp: getHold_def split: option.splits if_splits)

lemma truthy_obj: "get_prop hold name = Some v \<Longrightarrow> truthy hold"
  by (auto simp: get_prop_def truthy_def split: json.splits)

lemma getHold_test_true:
  assumes "redis_get s now (hold_key seatId) = Some data" "JSON_parse data = Some hold"
    "truthy_opt (get_prop hold ''expiresAt'')" "js_less_than (the (get_prop hold ''expiresAt'')) now"
  shows "getHold s now (JStr seatId) = (None, redis_del s (hold_key seatId))"
proof -
  from assms have "data \<noteq> []" "hold \<noteq> JNull" by (auto simp: get_prop_def truthy_opt_def)
  with assms show ?thesis by (simp add: getHold_def)
qed

lemma getHold_test_false:
  assumes "redis_get s now (hold_key seatId) = Some data" "JSON_parse data = Some hold" "hold \<noteq> JNull"
    "\<not> (truthy_opt (get_prop hold ''expiresAt'') \<and> js_less_than (the (get_prop hold ''expiresAt'')) now)"
  shows "getHold s now (JStr seatId) = (Some hold, s)"
proof -
  from assms have "data \<noteq> []" by auto
  with assms show ?thesis by (auto simp: getHold_def)
qed

lemma expiry_test_absent: "get_prop hold name = None \<Longrightarrow> \<not> truthy_opt (get_prop hold name)"
  by (simp add: truthy_opt_def)

lemma expiry_test_number:
  "get_prop hold name = Some (JNum m d) \<Longrightarrow>
   truthy_opt (get_prop hold name) \<and> js_less_than (the (get_prop hold name)) now \<longleftrightarrow>
   m \<noteq> 0 \<and> m < now * 10 ^ d"
  by (simp add: truthy_opt_def js_less_than_def to_number_def)

text \<open>
  Claim C6, as the code has it. \<^verbatim>\<open>getHold(seatId)\<close> returns null and leaves the store
  alone when no record is stored, and when the stored payload is no JSON text or is the
  JSON \<^verbatim>\<open>null\<close>. When the payload parses to a value that passes the test
  \<^verbatim>\<open>hold.expiresAt && hold.expiresAt < Date.now()\<close>, that is, whose \<^verbatim>\<open>expiresAt\<close> is truthy
  and, converted to a number, below the clock, it deletes the record and returns null. In
  every other case it returns the parsed payload and leaves the store alone. A value
  without \<^verbatim>\<open>expiresAt\<close> fails the test; a number \<open>m / 10 ^ d\<close> passes it exactly when it is
  not zero and below the clock.
\<close>

theorem getHold_cases:
  "(redis_get s now (hold_key seatId) = None \<longrightarrow> getHold s now (JStr seatId) = (None, s)) \<and>
   (redis_get s now (hold_key seatId) = Some data \<and> (JSON_parse data = None \<or> JSON_parse data = Some JNull) \<longrightarrow>
      getHold s now (JStr seatId) = (None, s)) \<and>
   (redis_get s now (hold_key seatId) = Some data \<and> JSON_parse data = Some hold \<and>
    truthy_opt (get_prop hold ''expiresAt'') \<and> js_less_than (the (get_prop hold ''expiresAt'')) now \<longrightarrow>
      getHold s now (JStr seatId) = (None, redis_del s (hold_key seatId))) \<and>
   (redis_get s now (hold_key seatId) = Some data \<and> JSON_parse data = Some hold \<and> hold \<noteq> JNull \<and>
    \<not> (truthy_opt (get_prop hold ''expiresAt'') \<and> js_less_than (the (get_prop hold ''expiresAt'')) now) \<longrightarrow>
      getHold s now (JStr seatId) = (Some hold, s)) \<and>
   (get_prop hold ''expiresAt'' = None \<longrightarrow> \<not> truthy_opt (get_prop hold ''expiresAt'')) \<and>
   (get_prop hold ''expiresAt'' = Some (JNum m d) \<longrightarrow>
      (truthy_opt (get_prop hold ''expiresAt'') \<and> js_less_than (the (get_prop hold ''expiresAt'')) now \<longleftrightarrow>
       m \<noteq> 0 \<and> m < now * 10 ^ d))"
proof (intro conjI impI)
  assume "redis_get s now (hold_key seatId) = None"
  then show "getHold s now (JStr seatId) = (None, s)" by (rule getHold_absent)
next
  assume "redis_get s now (hold_key seatId) = Some data \<and> (JSON_parse data = None \<or> JSON_parse data = Some JNull)"
  then show "getHold s now (JStr seatId) = (None, s)" by (auto intro: getHold_unparsable)
next
  assume "redis_get s now (hold_key seatId) = Some data \<and> JSON_parse data = Some hold \<and>
    truthy_opt (get_prop hold ''expiresAt'') \<and> js_less_than (the (get_prop hold ''expiresAt'')) now"
  then show "getHold s now (JStr seatId) = (None, redis_del s (hold_key seatId))"
    by (auto intro: getHold_test_true)
next
  assume "redis_get s now (hold_key seatId) = Some data \<and> JSON_parse data = Some hold \<and> hold \<noteq> JNull \<and>
    \<not> (truthy_opt (get_prop hold ''expiresAt'') \<and> js_less_than (the (get_prop hold ''expiresAt'')) now)"
  then show "getHold s now (JStr seatId) = (Some hold, s)"
    by (intro getHold_test_false) auto
next
  assume "get_prop hold ''expiresAt'' = None"
  then show "\<not> truthy_opt (get_prop hold ''expiresAt'')" by (rule expiry_test_absent)
next
  assume "get_prop hold ''expiresAt'' = Some (JNum m d)"
  then show "truthy_opt (get_prop hold ''expiresAt'') \<and> js_less_than (the (get_prop hold ''expiresAt'')) now \<longleftrightarrow>
       m \<noteq> 0 \<and> m < now * 10 ^ d" by (rule expiry_test_number)
qed

theorem getHold_cases_witness:
  "redis_get Map.empty 1000 (hold_key ''A1'') = None \<and>
   getHold Map.empty 1000 (JStr ''A1'') = (None, Map.empty) \<and>
   redis_get [hold_key ''A1'' \<mapsto> (''not json'', None)] 1000 (hold_key ''A1'') = Some ''not json'' \<and>
   JSON_parse ''not json'' = None \<and>
   getHold [hold_key ''A1'' \<mapsto> (''not json'', None)] 1000 (JStr ''A1'') =
     (None, [hold_key ''A1'' \<mapsto> (''not json'', None)]) \<and>
   JSON_parse ''{\"userId\":\"u1\",\"bookingId\":\"bk1\",\"sectionId\":\"s1\",\"expiresAt\":500}'' =
     Some (hold_object ''u1'' ''bk1'' ''s1'' 500) \<and>
   get_prop (hold_object ''u1'' ''bk1'' ''s1'' 500) ''expiresAt'' = Some (JNum 500 0) \<and>
   (500::int) \<noteq> 0 \<and> (500::int) < 1000 * 10 ^ 0 \<and>
   getHold [hold_key ''A1'' \<mapsto> (''{\"userId\":\"u1\",\"bookingId\":\"bk1\",\"sectionId\":\"s1\",\"expiresAt\":500}'', Some 2000)]
       1000 (JStr ''A1'') = (None, Map.empty) \<and>
   \<not> ((500::int) \<noteq> 0 \<and> (500::int) < 400 * 10 ^ 0) \<and>
   getHold [hold_key ''A1'' \<mapsto> (''{\"userId\":\"u1\",\"bookingId\":\"bk1\",\"sectionId\":\"s1\",\"expiresAt\":500}'', Some 2000)]
       400 (JStr ''A1'') =
     (Some (hold_object ''u1'' ''bk1'' ''s1'' 500),
      [hold_key ''A1'' \<mapsto> (''{\"userId\":\"u1\",\"bookingId\":\"bk1\",\"sectionId\":\"s1\",\"expiresAt\":500}'', Some 2000)]) \<and>
   JSON_parse ''{\"userId\":\"u1\"}'' = Some (JObj [(''userId'', JStr ''u1'')]) \<and>
   get_prop (JObj [(''userId'', JStr ''u1'')]) ''expiresAt'' = None \<and>
   getHold [hold_key ''A1'' \<mapsto> (''{\"userId\":\"u1\"}'', None)] 1000 (JStr ''A1'') =
     (Some (JObj [(''userId'', JStr ''u1'')]), [hold_key ''A1'' \<mapsto> (''{\"userId\":\"u1\"}'', None)]) \<and>
   JSON_parse ''{\"expiresAt\":\"500\"}'' = Some (JObj [(''expiresAt'', JStr ''500'')]) \<and>
   truthy_opt (get_prop (JObj [(''expiresAt'', JStr ''500'')]) ''expiresAt'') \<and>
   js_less_than (the (get_prop (JObj [(''expiresAt'', JStr ''500'')]) ''expiresAt'')) 1000 \<and>
   getHold [hold_key ''A1'' \<mapsto> (''{\"expiresAt\":\"500\"}'', None)] 1000 (JStr ''A1'') = (None, Map.empty)"
proof -
  let ?payload = "''{\"userId\":\"u1\",\"bookingId\":\"bk1\",\"sectionId\":\"s1\",\"expiresAt\":500}''"
  let ?s = "[hold_key ''A1'' \<mapsto> (?payload, Some (2000::int))]"
  let ?bad = "[hold_key ''A1'' \<mapsto> (''not json'', None :: int option)]"
  let ?bare = "[hold_key ''A1'' \<mapsto> (''{\"userId\":\"u1\"}'', None :: int option)]"
  let ?str = "[hold_key ''A1'' \<mapsto> (''{\"expiresAt\":\"500\"}'', None :: int option)]"
  let ?hold = "hold_object ''u1'' ''bk1'' ''s1'' 500"
  let ?user = "JObj [(''userId'', JStr ''u1'')]"
  let ?text = "JObj [(''expiresAt'', JStr ''500'')]"
  have p0: "JSON_parse ''not json'' = None" by code_simp
  have p1: "JSON_parse ?payload = Some ?hold" by code_simp
  have p2: "JSON_parse ''{\"userId\":\"u1\"}'' = Some ?user" by code_simp
  have p3: "JSON_parse ''{\"expiresAt\":\"500\"}'' = Some ?text" by code_simp
  note e1 = get_prop_hold_object(4) [of "''u1''" "''bk1''" "''s1''" 500]
  have e2: "get_prop ?user ''expiresAt'' = None" by (simp add: get_prop_def)
  have e3: "truthy_opt (get_prop ?text ''expiresAt'')" by (simp add: get_prop_def truthy_opt_def truthy_def)
  have e4: "js_less_than (the (get_prop ?text ''expiresAt'')) 1000" by code_simp
  have g0: "redis_get Map.empty 1000 (hold_key ''A1'') = None"
    by (simp add: redis_get_def visible_def)
  have g1: "redis_get ?bad 1000 (hold_key ''A1'') = Some ''not json''"
    by (rule redis_get_single) (simp add: live_def)
  have g2: "redis_get ?s 1000 (hold_key ''A1'') = Some ?payload"
    by (rule redis_get_single) (simp add: live_def)
  have g3: "redis_get ?s 400 (hold_key ''A1'') = Some ?payload"
    by (rule redis_get_single) (simp add: live_def)
  have g4: "redis_get ?bare 1000 (hold_key ''A1'') = Some ''{\"userId\":\"u1\"}''"
    by (rule redis_get_single) (simp add: live_def)
  have g5: "redis_get ?str 1000 (hold_key ''A1'') = Some ''{\"expiresAt\":\"500\"}''"
    by (rule redis_get_single) (simp add: live_def)
  have d: "redis_del ?s (hold_key ''A1'') = Map.empty" by (simp add: redis_del_def)
  have d': "redis_del ?str (hold_key ''A1'') = Map.empty" by (simp add: redis_del_def)
  have n1: "(500::int) \<noteq> 0 \<and> (500::int) < 1000 * 10 ^ 0" by simp
  have n2: "\<not> ((500::int) \<noteq> 0 \<and> (500::int) < 400 * 10 ^ 0)" by simp
  have nn: "?user \<noteq> JNull" by simp
  note t0 = getHold_cases [of Map.empty 1000 "''A1''" "''x''" JNull 0 0]
  note t1 = getHold_cases [of ?bad 1000 "''A1''" "''not json''" JNull 0 0]
  note t2 = getHold_cases [of ?s 1000 "''A1''" ?payload ?hold 500 0]
  note t3 = getHold_cases [of ?s 400 "''A1''" ?payload ?hold 500 0]
  note t4 = getHold_cases [of ?bare 1000 "''A1''" "''{\"userId\":\"u1\"}''" ?user 0 0]
  note t5 = getHold_cases [of ?str 1000 "''A1''" "''{\"expiresAt\":\"500\"}''" ?text 0 0]
  have c0: "getHold Map.empty 1000 (JStr ''A1'') = (None, Map.empty)" using t0 g0 by blast
  have c1: "getHold ?bad 1000 (JStr ''A1'') = (None, ?bad)" using t1 g1 p0 by blast
  from t2 e1 n1 have x2: "truthy_opt (get_prop ?hold ''expiresAt'') \<and>
      js_less_than (the (get_prop ?hold ''expiresAt'')) 1000" by blast
  with t2 g2 p1 have "getHold ?s 1000 (JStr ''A1'') = (None, redis_del ?s (hold_key ''A1''))" by blast
  then have c2: "getHold ?s 1000 (JStr ''A1'') = (None, Map.empty)" unfolding d .
  from t3 e1 n2 have x3: "\<not> (truthy_opt (get_prop ?hold ''expiresAt'') \<and>
      js_less_than (the (get_prop ?hold ''expiresAt'')) 400)" by blast
  with t3 g3 p1 hold_object_not_null [of "''u1''" "''bk1''" "''s1''" 500]
  have c3: "getHold ?s 400 (JStr ''A1'') = (Some ?hold, ?s)" by blast
  from t4 e2 have x4: "\<not> (truthy_opt (get_prop ?user ''expiresAt'') \<and>
      js_less_than (the (get_prop ?user ''expiresAt'')) 1000)" by blast
  with t4 g4 p2 nn have c4: "getHold ?bare 1000 (JStr ''A1'') = (Some ?user, ?bare)" by blast
  from t5 g5 p3 e3 e4 have "getHold ?str 1000 (JStr ''A1'') = (None, redis_del ?str (hold_key ''A1''))" by blast
  then have c5: "getHold ?str 1000 (JStr ''A1'') = (None, Map.empty)" unfolding d' .
  from g0 c0 g1 p0 c1 p1 e1 n1 c2 n2 c3 p2 e2 c4 p3 e3 e4 c5 show ?thesis by blast
qed

text \<open>
  The claim as stated has every payload that is no Hold answered by null. A payload that
  is valid JSON is returned whatever its shape: the number \<^verbatim>\<open>42\<close> here.
\<close>

theorem getHold_returns_non_hold:
  "getHold [hold_key ''A1'' \<mapsto> (''42'', None)] 1000 (JStr ''A1'') =
     (Some (JNum 42 0), [hold_key ''A1'' \<mapsto> (''42'', None)])"
proof -
  have p: "JSON_parse ''42'' = Some (JNum 42 0)" by code_simp
  have g: "redis_get [hold_key ''A1'' \<mapsto> (''42'', None)] 1000 (hold_key ''A1'') = Some ''42''"
    by (rule redis_get_single) (simp add: live_def)
  have e: "get_prop (JNum 42 0) ''expiresAt'' = None" by (simp add: get_prop_def)
  from getHold_live [OF g p _ disjI1 [OF e]] show ?thesis by simp
qed

text \<open>
  Claim C4, as the code has it. \<^verbatim>\<open>releaseHold(seatId, userId)\<close> returns true exactly
  when \<^verbatim>\<open>getHold\<close> finds a hold for the seat whose \<^verbatim>\<open>userId\<close> is the caller's; it has
  then deleted the hold key and the booking index of the hold's \<^verbatim>\<open>bookingId\<close>, and
  nothing else. When it returns false the store is unchanged, but for one case: an
  expired record found for the seat has been deleted by \<^verbatim>\<open>getHold\<close>.
\<close>

theorem releaseHold_cases:
  assumes "releaseHold s now seatId userId = (r, s')"
  shows "(r \<longleftrightarrow> (\<exists>hold. fst (getHold s now (JStr seatId)) = Some hold \<and>
                     get_prop hold ''userId'' = Some (JStr userId))) \<and>
         (r \<longrightarrow> (\<forall>hold b. fst (getHold s now (JStr seatId)) = Some hold \<and>
                     get_prop hold ''bookingId'' = Some (JStr b) \<longrightarrow>
                     s' = s(hold_key seatId := None, booking_key b := None))) \<and>
         (\<not> r \<longrightarrow> s' = s \<or>
            (s' = s(hold_key seatId := None) \<and> fst (getHold s now (JStr seatId)) = None \<and>
             (\<exists>data hold. redis_get s now (hold_key seatId) = Some data \<and>
                JSON_parse data = Some hold \<and> truthy_opt (get_prop hold ''expiresAt'') \<and>
                js_less_than (the (get_prop hold ''expiresAt'')) now)))"
proof -
  obtain h s1 where gh: "getHold s now (JStr seatId) = (h, s1)"
    by (cases "getHold s now (JStr seatId)") auto
  show ?thesis
  proof (cases h)
    case None
    with assms gh have r: "\<not> r" "s' = s1" by (auto simp: releaseHold_def truthy_opt_def)
    from getHold_None_store [OF gh [unfolded None]] r gh None show ?thesis
      by (auto simp: redis_del_def)
  next
    case (Some hold)
    with gh have s1: "s1 = s" by (auto dest: getHold_Some_store)
    show ?thesis
    proof (cases "get_prop hold ''userId'' = Some (JStr userId)")
      case True
      then have "truthy hold" by (rule truthy_obj)
      with assms gh Some True s1
      have "r" "s' = redis_del (redis_del s (hold_key seatId)) (booking_key (template (get_prop hold ''bookingId'')))"
        by (auto simp: releaseHold_def truthy_opt_def)
      with gh Some True show ?thesis
        by (auto simp: redis_del_def template_def)
    next
      case False
      with assms gh Some s1 have "\<not> r" "s' = s" by (auto simp: releaseHold_def)
      with gh Some False show ?thesis by auto
    qed
  qed
qed

theorem releaseHold_cases_witness:
  "releaseHold [hold_key ''A1'' \<mapsto> (''{\"userId\":\"u1\",\"bookingId\":\"bk1\",\"sectionId\":\"s1\",\"expiresAt\":500}'', Some 5000),
                booking_key ''bk1'' \<mapsto> (''A1'', Some 5000)] 100 ''A1'' ''u1'' = (True, Map.empty) \<and>
   releaseHold [hold_key ''A1'' \<mapsto> (''{\"userId\":\"u1\",\"bookingId\":\"bk1\",\"sectionId\":\"s1\",\"expiresAt\":500}'', Some 5000),
                booking_key ''bk1'' \<mapsto> (''A1'', Some 5000)] 100 ''A1'' ''u2'' =
     (False, [hold_key ''A1'' \<mapsto> (''{\"userId\":\"u1\",\"bookingId\":\"bk1\",\"sectionId\":\"s1\",\"expiresAt\":500}'', Some 5000),
                booking_key ''bk1'' \<mapsto> (''A1'', Some 5000)])"
proof -
  define payload where "payload = ''{\"userId\":\"u1\",\"bookingId\":\"bk1\",\"sectionId\":\"s1\",\"expiresAt\":500}''"
  define s0 :: store where "s0 = [hold_key ''A1'' \<mapsto> (payload, Some 5000), booking_key ''bk1'' \<mapsto> (''A1'', Some 5000)]"
  define h where "h = hold_object ''u1'' ''bk1'' ''s1'' 500"
  define seat where "seat = ''A1''"
  define u1 where "u1 = ''u1''"
  define u2 where "u2 = ''u2''"
  have p1: "JSON_parse payload = Some h" unfolding payload_def h_def by code_simp
  have rg: "redis_get s0 100 (hold_key seat) = Some payload"
    by (simp add: s0_def seat_def redis_get_def visible_def live_def)
  have gh: "getHold s0 100 (JStr seat) = (Some h, s0)"
  proof (rule getHold_live [OF rg p1])
    show "h \<noteq> JNull" by (simp add: h_def)
    show "get_prop h ''expiresAt'' = None \<or>
          get_prop h ''expiresAt'' = Some (JNum 500 0) \<and> ((500::int) = 0 \<or> (100::int) \<le> 500)"
      by (simp add: h_def get_prop_hold_object)
  qed
  have u: "get_prop h ''userId'' = Some (JStr u1)" by (simp add: h_def u1_def get_prop_hold_object)
  have b: "get_prop h ''bookingId'' = Some (JStr ''bk1'')" by (simp add: h_def get_prop_hold_object)
  have f: "fst (getHold s0 100 (JStr seat)) = Some h" unfolding gh by simp
  have ne: "Some (JStr u1) \<noteq> Some (JStr u2)" by (simp add: u1_def u2_def)
  note t1 = releaseHold_cases [OF surjective_pairing, of s0 100 seat u1]
  note t2 = releaseHold_cases [OF surjective_pairing, of s0 100 seat u2]
  have ex: "\<exists>hold. fst (getHold s0 100 (JStr seat)) = Some hold \<and> get_prop hold ''userId'' = Some (JStr u1)"
    using f u by (intro exI conjI)
  have r1: "fst (releaseHold s0 100 seat u1)"
    by (rule t1 [THEN conjunct1, THEN iffD2, OF ex])
  have s1: "snd (releaseHold s0 100 seat u1) = s0(hold_key seat := None, booking_key ''bk1'' := None)"
    by (rule t1 [THEN conjunct2, THEN conjunct1, rule_format, OF r1 conjI [OF f b]])
  have e: "s0(hold_key seat := None, booking_key ''bk1'' := None) = Map.empty"
    by (simp add: s0_def seat_def fun_eq_iff)
  have r2: "\<not> fst (releaseHold s0 100 seat u2)"
  proof
    assume "fst (releaseHold s0 100 seat u2)"
    from t2 [THEN conjunct1, THEN iffD1, OF this]
    obtain hold where "fst (getHold s0 100 (JStr seat)) = Some hold"
      "get_prop hold ''userId'' = Some (JStr u2)" by (elim exE conjE)
    with f u ne show False by simp
  qed
  have s2: "snd (releaseHold s0 100 seat u2) = s0"
    using t2 [THEN conjunct2, THEN conjunct2, rule_format, OF r2] f
    by (elim disjE conjE) simp_all
  have a: "releaseHold s0 100 seat u1 = (True, Map.empty)"
    using r1 s1 e by (simp add: prod_eq_iff)
  have b': "releaseHold s0 100 seat u2 = (False, s0)"
    using r2 s2 by (simp add: prod_eq_iff)
  from a b' show ?thesis unfolding s0_def payload_def seat_def u1_def u2_def by (rule conjI)
qed

text \<open>
  The claim as stated has a false return leave the state unchanged for an expired hold.
  A record that is still in the store but whose \<^verbatim>\<open>expiresAt\<close> has passed is deleted
  by the call that returns false.
\<close>

theorem releaseHold_deletes_expired:
  "releaseHold [hold_key ''A1'' \<mapsto> (''{\"userId\":\"u1\",\"bookingId\":\"bk1\",\"sectionId\":\"s1\",\"expiresAt\":500}'', Some 2000)]
      1000 ''A1'' ''u2'' = (False, Map.empty) \<and>
   redis_get [hold_key ''A1'' \<mapsto> (''{\"userId\":\"u1\",\"bookingId\":\"bk1\",\"sectionId\":\"s1\",\"expiresAt\":500}'', Some 2000)]
      1000 (hold_key ''A1'') \<noteq> redis_get Map.empty 1000 (hold_key ''A1'')"
proof -
  let ?payload = "''{\"userId\":\"u1\",\"bookingId\":\"bk1\",\"sectionId\":\"s1\",\"expiresAt\":500}''"
  let ?s = "[hold_key ''A1'' \<mapsto> (?payload, Some (2000::int))]"
  have p1: "JSON_parse ?payload = Some (hold_object ''u1'' ''bk1'' ''s1'' 500)" by code_simp
  have g: "redis_get ?s 1000 (hold_key ''A1'') = Some ?payload"
    by (rule redis_get_single) (simp add: live_def)
  have d: "redis_del ?s (hold_key ''A1'') = Map.empty" by (simp add: redis_del_def)
  have "getHold ?s 1000 (JStr ''A1'') = (None, redis_del ?s (hold_key ''A1''))"
    by (rule getHold_expired [OF g p1 get_prop_hold_object(4)]) simp_all
  then have gh: "getHold ?s 1000 (JStr ''A1'') = (None, Map.empty)" unfolding d .
  have r: "releaseHold ?s 1000 ''A1'' ''u2'' = (False, Map.empty)"
    unfolding releaseHold_def gh by (simp add: truthy_opt_def)
  have "redis_get Map.empty 1000 (hold_key ''A1'') = None" by (simp add: redis_get_def visible_def)
  with g r show ?thesis by simp
qed

lemma getHold_fst_key:
  "redis_get s' now (hold_key (js_to_string b)) = redis_get s now (hold_key (js_to_string a)) \<Longrightarrow>
   fst (getHold s' now b) = fst (getHold s now a)"
  by (simp add: getHold_def split: option.splits)

lemma getHold_after:
  assumes "getHold s now a = (r, s1)"
  shows "fst (getHold s1 now b) = fst (getHold s now b)"
proof (cases "s1 = s")
  case True
  then show ?thesis by simp
next
  case False
  with assms have r: "r = None" by (cases r) (auto dest: getHold_Some_store)
  from getHold_None_store [OF assms [unfolded r]] False
  obtain data hold where s1: "s1 = redis_del s (hold_key (js_to_string a))"
    and ex: "redis_get s now (hold_key (js_to_string a)) = Some data" "JSON_parse data = Some hold"
      "truthy_opt (get_prop hold ''expiresAt'')" "js_less_than (the (get_prop hold ''expiresAt'')) now"
    by blast
  show ?thesis
  proof (cases "hold_key (js_to_string b) = hold_key (js_to_string a)")
    case True
    have "fst (getHold s now b) = None"
      using ex True by (auto simp: getHold_def)
    moreover have "redis_get s1 now (hold_key (js_to_string b)) = None"
      using True by (simp add: s1 redis_get_def visible_def redis_del_def)
    then have "fst (getHold s1 now b) = None" by (simp add: getHold_def)
    ultimately show ?thesis by simp
  next
    case False
    then have "redis_get s1 now (hold_key (js_to_string b)) = redis_get s now (hold_key (js_to_string b))"
      by (simp add: s1 redis_get_def visible_def redis_del_def)
    then show ?thesis by (rule getHold_fst_key)
  qed
qed

lemma live_seats_after:
  "getHold s now a = (r, s1) \<Longrightarrow> live_seats s1 now ids = live_seats s now ids"
  by (simp add: live_seats_def getHold_after)

lemma collect_seats_live:
  "fst (collect_seats s now ids seats) = seats @ live_seats s now ids"
proof (induction ids arbitrary: s seats)
  case Nil
  then show ?case by (simp add: live_seats_def)
next
  case (Cons a ids)
  obtain r s1 where gh: "getHold s now a = (r, s1)" by (cases "getHold s now a") auto
  have tail: "live_seats s1 now ids = live_seats s now ids" by (rule live_seats_after [OF gh])
  have split: "live_seats s now (a # ids) =
      (case r of None \<Rightarrow> [] | Some hold \<Rightarrow> if truthy hold then [seat_record_of a hold] else []) @ live_seats s now ids"
    using gh by (simp add: live_seats_def)
  show ?case
  proof (cases "truthy_opt r")
    case True
    then obtain hold where "r = Some hold" "truthy hold" by (cases r) (auto simp: truthy_opt_def)
    with gh Cons.IH [of s1 "seats @ [seat_record_of a hold]"] tail split show ?thesis
      by (simp add: truthy_opt_def)
  next
    case False
    then have "(case r of None \<Rightarrow> [] | Some hold \<Rightarrow> if truthy hold then [seat_record_of a hold] else []) = []"
      by (cases r) (auto simp: truthy_opt_def)
    with gh False Cons.IH [of s1 seats] tail split show ?thesis by simp
  qed
qed

lemma getHoldByBookingId_decoded:
  assumes "redis_get s now (booking_key bookingId) = Some data" "data \<noteq> []"
  shows "fst (getHoldByBookingId s now bookingId) =
     (case live_seats s now (decoded_ids data) of
        [] \<Rightarrow> None
      | [seat] \<Rightarrow> Some (Flat seat)
      | seat # rest \<Rightarrow> Some (Grouped bookingId (user_of seat) (seat # rest)))"
proof (cases "JSON_parse data")
  case None
  obtain r s1 where gh: "getHold s now (JStr data) = (r, s1)" by (cases "getHold s now (JStr data)") auto
  have "live_seats s now [JStr data] =
      (case r of None \<Rightarrow> [] | Some hold \<Rightarrow> if truthy hold then [seat_record_of (JStr data) hold] else [])"
    using gh by (simp add: live_seats_def)
  with assms None gh show ?thesis
    by (cases r) (auto simp: getHoldByBookingId_def decoded_ids_def truthy_opt_def)
next
  case (Some v)
  let ?ids = "case v of JArr vs \<Rightarrow> vs | _ \<Rightarrow> [v]"
  have ids: "decoded_ids data = ?ids" using Some by (simp add: decoded_ids_def split: json.splits)
  obtain seats s1 where cs: "collect_seats s now ?ids [] = (seats, s1)"
    by (cases "collect_seats s now ?ids []") auto
  with collect_seats_live [of s now ?ids "[]"] have seats: "seats = live_seats s now ?ids" by simp
  have "fst (getHoldByBookingId s now bookingId) =
      (if length seats = 0 then None else if length seats = 1 then Some (Flat (hd seats))
       else Some (Grouped bookingId (user_of (hd seats)) seats))"
    using assms Some cs by (simp add: getHoldByBookingId_def Let_def)
  also have "\<dots> = (case seats of [] \<Rightarrow> None | [seat] \<Rightarrow> Some (Flat seat)
      | seat # rest \<Rightarrow> Some (Grouped bookingId (user_of seat) (seat # rest)))"
    by (cases seats; cases "tl seats") auto
  finally show ?thesis unfolding ids seats .
qed

lemma valid_date_div:
  assumes "\<bar>ms\<bar> \<le> 8640000000000000"
  shows "valid_date (JNum (ms div 1000) 0)"
proof -
  from assms have "- 8640000000000 \<le> ms div 1000" "ms div 1000 \<le> 8640000000000" by linarith+
  then show ?thesis by (simp add: valid_date_def to_number_def)
qed

lemma accepted_string:
  "accepted date_parse (JStr text) \<longleftrightarrow> Date_getTime date_parse text \<noteq> None"
proof (cases "Date_getTime date_parse text")
  case None
  then show ?thesis by (simp add: accepted_def convert_entry_def)
next
  case (Some ms)
  then have "\<bar>ms\<bar> \<le> 8640000000000000"
    by (auto simp: Date_getTime_def split: option.splits if_splits)
  from valid_date_div [OF this] Some show ?thesis by (simp add: accepted_def convert_entry_def)
qed

lemma put_entries_accepted_step:
  assumes "accepted date_parse v"
  shows "put_entries date_parse s ((city, v) # body) results =
         put_entries date_parse (write_entries date_parse s [(city, v)]) body
           (collect_results date_parse results [(city, v)])"
proof -
  from assms obtain u where u: "convert_entry date_parse v = Some u" "u \<noteq> JNull" "valid_date u"
    by (auto simp: accepted_def split: option.splits)
  then show ?thesis
    by (simp add: setGeoUnlockTime_def write_entries_def collect_results_def)
qed

lemma put_entries_accepted_prefix:
  "\<forall>(city, v) \<in> set pre. accepted date_parse v \<Longrightarrow>
   put_entries date_parse s (pre @ rest) results =
   put_entries date_parse (write_entries date_parse s pre) rest (collect_results date_parse results pre)"
proof (induction pre arbitrary: s results)
  case Nil
  then show ?case by (simp add: write_entries_def collect_results_def)
next
  case (Cons entry pre)
  obtain city v where entry: "entry = (city, v)" by (cases entry)
  from Cons.prems entry have acc: "accepted date_parse v" and rest: "\<forall>(city, v) \<in> set pre. accepted date_parse v"
    by auto
  show ?case
    using put_entries_accepted_step [OF acc, of s city "pre @ rest" results] Cons.IH [OF rest]
    by (simp add: entry write_entries_def collect_results_def)
qed

lemma write_entries_frame:
  "k \<notin> geo_key ` fst ` set entries \<Longrightarrow> write_entries date_parse s entries k = s k"
  unfolding write_entries_def
  by (induction entries arbitrary: s) (auto simp: redis_set_def)

lemma convert_entry_other:
  "\<forall>t. v \<noteq> JStr t \<Longrightarrow> convert_entry date_parse v = Some v"
  by (cases v) (simp_all add: convert_entry_def)

lemma accepted_other:
  "\<forall>t. v \<noteq> JStr t \<Longrightarrow> accepted date_parse v \<longleftrightarrow> v \<noteq> JNull \<and> valid_date v"
  by (simp add: accepted_def convert_entry_other)

lemma put_entries_rejected:
  assumes "bad = JNull \<or> (\<exists>t. bad = JStr t \<and> Date_getTime date_parse t = None)"
  shows "put_entries date_parse s ((city, bad) # post) results = (InvalidTimeFormat city bad, s)"
  using assms by (auto simp: convert_entry_def setGeoUnlockTime_def)

text \<open>
  Claim C5, at an input where the code departs from it. \<^verbatim>\<open>createHold\<close> writes the
  seat id as it is into the booking index (the legacy encoding), and
  \<^verbatim>\<open>getHoldByBookingId\<close> first reads that text as JSON. The seat id \<^verbatim>\<open>1e3\<close> is a JSON
  number: the lookup goes to seat \<^verbatim>\<open>1000\<close>, and the call answers null while the hold of
  seat \<^verbatim>\<open>1e3\<close> is in the store.
\<close>

theorem legacy_seat_id_read_as_json:
  "createHold Map.empty 0 ''1e3'' ''u1'' ''bk1'' ''s1'' =
     (True, [hold_key ''1e3'' \<mapsto> (JSON_stringify (hold_object ''u1'' ''bk1'' ''s1'' 120000), Some 120000),
             booking_key ''bk1'' \<mapsto> (''1e3'', Some 120000)]) \<and>
   redis_get [hold_key ''1e3'' \<mapsto> (JSON_stringify (hold_object ''u1'' ''bk1'' ''s1'' 120000), Some 120000),
              booking_key ''bk1'' \<mapsto> (''1e3'', Some 120000)] 100 (hold_key ''1e3'') =
     Some (JSON_stringify (hold_object ''u1'' ''bk1'' ''s1'' 120000)) \<and>
   decoded_ids ''1e3'' = [JNum 1000 0] \<and>
   getHoldByBookingId
     [hold_key ''1e3'' \<mapsto> (JSON_stringify (hold_object ''u1'' ''bk1'' ''s1'' 120000), Some 120000),
      booking_key ''bk1'' \<mapsto> (''1e3'', Some 120000)] 100 ''bk1'' =
     (None, [hold_key ''1e3'' \<mapsto> (JSON_stringify (hold_object ''u1'' ''bk1'' ''s1'' 120000), Some 120000),
             booking_key ''bk1'' \<mapsto> (''1e3'', Some 120000)])"
proof -
  define payload where "payload = JSON_stringify (hold_object ''u1'' ''bk1'' ''s1'' 120000)"
  define s0 :: store where
    "s0 = [hold_key ''1e3'' \<mapsto> (payload, Some 120000), booking_key ''bk1'' \<mapsto> (''1e3'', Some 120000)]"
  have c: "createHold Map.empty 0 ''1e3'' ''u1'' ''bk1'' ''s1'' = (True, s0)"
    by (simp add: createHold_def set_nx_ex_cases visible_def redis_set_ex_def Let_def
          HOLD_TTL_SECONDS_def s0_def payload_def del: JSON_stringify.simps)
  have g: "redis_get s0 100 (hold_key ''1e3'') = Some payload"
    by (simp add: s0_def redis_get_def visible_def live_def)
  have b: "redis_get s0 100 (booking_key ''bk1'') = Some ''1e3''"
    by (simp add: s0_def redis_get_def visible_def live_def)
  have p: "JSON_parse ''1e3'' = Some (JNum 1000 0)" by code_simp
  then have d: "decoded_ids ''1e3'' = [JNum 1000 0]" by (simp add: decoded_ids_def)
  have k: "number_to_string 1000 0 = ''1000''" by code_simp
  have "redis_get s0 100 (hold_key ''1000'') = None"
    by (simp add: s0_def redis_get_def visible_def hold_key_def booking_key_def)
  then have gh: "getHold s0 100 (JNum 1000 0) = (None, s0)"
    by (simp add: getHold_def k)
  have r: "getHoldByBookingId s0 100 ''bk1'' = (None, s0)"
    by (simp add: getHoldByBookingId_def b p gh truthy_opt_def)
  from c g d r show ?thesis unfolding s0_def payload_def by blast
qed

text \<open>
  Claim C3, at inputs where the code departs from it. \<^verbatim>\<open>getAllSeatStatuses\<close> reports
  \<^verbatim>\<open>HOLD\<close> for any hold key with a value, while \<^verbatim>\<open>getRedisSeatStatus\<close> reads through
  \<^verbatim>\<open>getHold\<close>: a record whose \<^verbatim>\<open>expiresAt\<close> has passed, or one that is no JSON,
  resolves to null there and is absent from the per-id mapping.
\<close>

theorem batch_status_skips_expiry_check:
  "getAllSeatStatuses
     [hold_key ''A1'' \<mapsto> (''{\"userId\":\"u1\",\"bookingId\":\"bk1\",\"sectionId\":\"s1\",\"expiresAt\":500}'', Some 2000)]
     1000 [''A1''] = [''A1'' \<mapsto> ''HOLD''] \<and>
   fst (getRedisSeatStatus
     [hold_key ''A1'' \<mapsto> (''{\"userId\":\"u1\",\"bookingId\":\"bk1\",\"sectionId\":\"s1\",\"expiresAt\":500}'', Some 2000)]
     1000 ''A1'') = None \<and>
   resolve_each
     [hold_key ''A1'' \<mapsto> (''{\"userId\":\"u1\",\"bookingId\":\"bk1\",\"sectionId\":\"s1\",\"expiresAt\":500}'', Some 2000)]
     1000 [''A1''] Map.empty = Map.empty \<and>
   getAllSeatStatuses [hold_key ''A1'' \<mapsto> (''not json'', None)] 1000 [''A1''] = [''A1'' \<mapsto> ''HOLD''] \<and>
   resolve_each [hold_key ''A1'' \<mapsto> (''not json'', None)] 1000 [''A1''] Map.empty = Map.empty"
proof -
  define payload where "payload = ''{\"userId\":\"u1\",\"bookingId\":\"bk1\",\"sectionId\":\"s1\",\"expiresAt\":500}''"
  define s0 :: store where "s0 = [hold_key ''A1'' \<mapsto> (payload, Some 2000)]"
  define s1 :: store where "s1 = [hold_key ''A1'' \<mapsto> (''not json'', None)]"
  have ne: "payload \<noteq> []" by (simp add: payload_def)
  have p0: "JSON_parse ''not json'' = None" by code_simp
  have p1: "JSON_parse payload = Some (hold_object ''u1'' ''bk1'' ''s1'' 500)"
    unfolding payload_def by code_simp
  have g0: "redis_get s0 1000 (hold_key ''A1'') = Some payload"
    unfolding s0_def by (rule redis_get_single) (simp add: live_def)
  have g1: "redis_get s1 1000 (hold_key ''A1'') = Some ''not json''"
    unfolding s1_def by (rule redis_get_single) (simp add: live_def)
  have st0: "redis_get s0 1000 (status_key ''A1'') = None"
    by (simp add: s0_def redis_get_def visible_def)
  have st1: "redis_get s1 1000 (status_key ''A1'') = None"
    by (simp add: s1_def redis_get_def visible_def)
  have "getHold s0 1000 (JStr ''A1'') = (None, redis_del s0 (hold_key ''A1''))"
    by (rule getHold_expired [OF g0 p1 get_prop_hold_object(4)]) simp_all
  then have gh0: "getHold s0 1000 (JStr ''A1'') = (None, Map.empty)"
    by (simp add: s0_def redis_del_def)
  have gh1: "getHold s1 1000 (JStr ''A1'') = (None, s1)"
    by (rule getHold_unparsable [OF g1]) (simp add: p0)
  have r0: "getRedisSeatStatus s0 1000 ''A1'' = (None, Map.empty)"
    by (simp add: getRedisSeatStatus_def st0 gh0 truthy_opt_def)
  have r1: "getRedisSeatStatus s1 1000 ''A1'' = (None, s1)"
    by (simp add: getRedisSeatStatus_def st1 gh1 truthy_opt_def)
  have e0: "resolve_each s0 1000 [''A1''] Map.empty = Map.empty" by (simp add: r0)
  have e1: "resolve_each s1 1000 [''A1''] Map.empty = Map.empty" by (simp add: r1)
  have a0: "getAllSeatStatuses s0 1000 [''A1''] = [''A1'' \<mapsto> ''HOLD'']"
    by (simp add: getAllSeatStatuses_def pipeline_results_def status_step_def st0 g0 ne)
  have a1: "getAllSeatStatuses s1 1000 [''A1''] = [''A1'' \<mapsto> ''HOLD'']"
    by (simp add: getAllSeatStatuses_def pipeline_results_def status_step_def st1 g1)
  from a0 r0 e0 a1 e1 show ?thesis unfolding s0_def s1_def payload_def by simp
qed

text \<open>
  Claim C9, as the code has it. In the bulk update only a string entry is validated
  before the write: it is accepted exactly when it is a valid date. Any other entry is
  passed on as it is; a \<^verbatim>\<open>null\<close> entry then fails in \<^verbatim>\<open>setGeoUnlockTime\<close> before anything
  is written for it, and another value is accepted exactly when it denotes a time within
  the range of dates. When every entry before the first entry that is an invalid date
  string or \<^verbatim>\<open>null\<close> is accepted, the call writes those earlier entries, answers with the
  failure that names the city and the raw value of that entry, and writes nothing
  further: the store is the store after the earlier entries, which are not rolled back
  and touch no key but their own. When every entry is accepted the call succeeds and has
  written them all.
\<close>

theorem PUT_stops_at_invalid_entry:
  "(accepted date_parse (JStr text) \<longleftrightarrow> Date_getTime date_parse text \<noteq> None) \<and>
   ((\<forall>t. v \<noteq> JStr t) \<longrightarrow>
      convert_entry date_parse v = Some v \<and> (accepted date_parse v \<longleftrightarrow> v \<noteq> JNull \<and> valid_date v)) \<and>
   setGeoUnlockTime s city JNull = (False, s) \<and>
   ((\<forall>(c, v) \<in> set pre. accepted date_parse v) \<and>
    (bad = JNull \<or> (\<exists>t. bad = JStr t \<and> Date_getTime date_parse t = None)) \<longrightarrow>
      PUT date_parse s (pre @ (city, bad) # post) =
        (InvalidTimeFormat city bad, write_entries date_parse s pre) \<and>
      (\<forall>k. k \<notin> geo_key ` fst ` set pre \<longrightarrow> write_entries date_parse s pre k = s k)) \<and>
   ((\<forall>(c, v) \<in> set body. accepted date_parse v) \<longrightarrow>
      snd (PUT date_parse s body) = write_entries date_parse s body \<and>
      (\<exists>n cities. fst (PUT date_parse s body) = Success n cities))"
proof (intro conjI impI allI)
  show "accepted date_parse (JStr text) \<longleftrightarrow> Date_getTime date_parse text \<noteq> None"
    by (rule accepted_string)
next
  assume "\<forall>t. v \<noteq> JStr t"
  then show "convert_entry date_parse v = Some v"
    and "accepted date_parse v \<longleftrightarrow> v \<noteq> JNull \<and> valid_date v"
    by (rule convert_entry_other, rule accepted_other)
next
  show "setGeoUnlockTime s city JNull = (False, s)" by (simp add: setGeoUnlockTime_def)
next
  assume a: "(\<forall>(c, v) \<in> set pre. accepted date_parse v) \<and>
    (bad = JNull \<or> (\<exists>t. bad = JStr t \<and> Date_getTime date_parse t = None))"
  then have acc: "\<forall>(c, v) \<in> set pre. accepted date_parse v"
    and bad: "bad = JNull \<or> (\<exists>t. bad = JStr t \<and> Date_getTime date_parse t = None)" by blast+
  from put_entries_accepted_prefix [OF acc, of s "(city, bad) # post" "[]"] put_entries_rejected [OF bad]
  show "PUT date_parse s (pre @ (city, bad) # post) =
        (InvalidTimeFormat city bad, write_entries date_parse s pre)"
    by (simp add: PUT_def)
next
  fix k assume "k \<notin> geo_key ` fst ` set pre"
  then show "write_entries date_parse s pre k = s k" by (rule write_entries_frame)
next
  assume a: "\<forall>(c, v) \<in> set body. accepted date_parse v"
  from put_entries_accepted_prefix [OF a, of s "[]" "[]"]
  have "PUT date_parse s body =
      (Success (length (collect_results date_parse [] body)) (collect_results date_parse [] body),
       write_entries date_parse s body)"
    by (simp add: PUT_def)
  then show "snd (PUT date_parse s body) = write_entries date_parse s body"
    and "\<exists>n cities. fst (PUT date_parse s body) = Success n cities" by simp_all
qed

theorem PUT_stops_at_invalid_entry_witness:
  "Date_getTime (\<lambda>t. if t = ''1970-01-01T00:01:00Z'' then Some 60000 else None) ''1970-01-01T00:01:00Z'' \<noteq> None \<and>
   accepted (\<lambda>t. if t = ''1970-01-01T00:01:00Z'' then Some 60000 else None) (JStr ''1970-01-01T00:01:00Z'') \<and>
   (\<forall>t. JNum 5 0 \<noteq> JStr t) \<and> valid_date (JNum 5 0) \<and>
   accepted (\<lambda>t. if t = ''1970-01-01T00:01:00Z'' then Some 60000 else None) (JNum 5 0) \<and>
   Date_getTime (\<lambda>t. if t = ''1970-01-01T00:01:00Z'' then Some 60000 else None) ''not-a-date'' = None \<and>
   PUT (\<lambda>t. if t = ''1970-01-01T00:01:00Z'' then Some 60000 else None) Map.empty
     ([(''mumbai'', JStr ''1970-01-01T00:01:00Z''), (''goa'', JNum 5 0)] @
      (''delhi'', JStr ''not-a-date'') # [(''pune'', JNum 5 0)]) =
     (InvalidTimeFormat ''delhi'' (JStr ''not-a-date''),
      write_entries (\<lambda>t. if t = ''1970-01-01T00:01:00Z'' then Some 60000 else None) Map.empty
        [(''mumbai'', JStr ''1970-01-01T00:01:00Z''), (''goa'', JNum 5 0)]) \<and>
   PUT (\<lambda>t. if t = ''1970-01-01T00:01:00Z'' then Some 60000 else None) Map.empty
     ([(''mumbai'', JStr ''1970-01-01T00:01:00Z''), (''goa'', JNum 5 0)] @
      (''delhi'', JNull) # [(''pune'', JNum 5 0)]) =
     (InvalidTimeFormat ''delhi'' JNull,
      write_entries (\<lambda>t. if t = ''1970-01-01T00:01:00Z'' then Some 60000 else None) Map.empty
        [(''mumbai'', JStr ''1970-01-01T00:01:00Z''), (''goa'', JNum 5 0)]) \<and>
   write_entries (\<lambda>t. if t = ''1970-01-01T00:01:00Z'' then Some 60000 else None) Map.empty
        [(''mumbai'', JStr ''1970-01-01T00:01:00Z''), (''goa'', JNum 5 0)] (geo_key ''mumbai'') =
     Some (number_to_string 60 0, None) \<and>
   write_entries (\<lambda>t. if t = ''1970-01-01T00:01:00Z'' then Some 60000 else None) Map.empty
        [(''mumbai'', JStr ''1970-01-01T00:01:00Z''), (''goa'', JNum 5 0)] (geo_key ''goa'') =
     Some (number_to_string 5 0, None) \<and>
   write_entries (\<lambda>t. if t = ''1970-01-01T00:01:00Z'' then Some 60000 else None) Map.empty
        [(''mumbai'', JStr ''1970-01-01T00:01:00Z''), (''goa'', JNum 5 0)] (geo_key ''pune'') = None \<and>
   write_entries (\<lambda>t. if t = ''1970-01-01T00:01:00Z'' then Some 60000 else None) Map.empty
        [(''mumbai'', JStr ''1970-01-01T00:01:00Z''), (''goa'', JNum 5 0)] (geo_key ''delhi'') = None \<and>
   snd (PUT (\<lambda>t. if t = ''1970-01-01T00:01:00Z'' then Some 60000 else None) Map.empty
          [(''mumbai'', JStr ''1970-01-01T00:01:00Z''), (''goa'', JNum 5 0)]) =
     write_entries (\<lambda>t. if t = ''1970-01-01T00:01:00Z'' then Some 60000 else None) Map.empty
        [(''mumbai'', JStr ''1970-01-01T00:01:00Z''), (''goa'', JNum 5 0)]"
proof -
  define dp :: "string \<Rightarrow> int option" where
    "dp = (\<lambda>t. if t = ''1970-01-01T00:01:00Z'' then Some 60000 else None)"
  define iso where "iso = ''1970-01-01T00:01:00Z''"
  define pre where "pre = [(''mumbai'', JStr iso), (''goa'', JNum 5 0)]"
  define post where "post = [(''pune'', JNum 5 0)]"
  have d1: "Date_getTime dp iso = Some 60000" by (simp add: Date_getTime_def dp_def iso_def)
  then have d1': "Date_getTime dp iso \<noteq> None" by simp
  have d2: "Date_getTime dp ''not-a-date'' = None" by (simp add: Date_getTime_def dp_def)
  have ns: "\<forall>t. JNum 5 0 \<noteq> JStr t" by simp
  have vd: "valid_date (JNum 5 0)" by (simp add: valid_date_def to_number_def)
  note t1 = PUT_stops_at_invalid_entry [of dp iso "JNum 5 0" Map.empty "''delhi''" pre "JStr ''not-a-date''" post pre]
  note t2 = PUT_stops_at_invalid_entry [of dp iso "JNum 5 0" Map.empty "''delhi''" pre JNull post pre]
  have acc: "accepted dp (JStr iso)" by (rule t1 [THEN conjunct1, THEN iffD2, OF d1'])
  from t1 [THEN conjunct2, THEN conjunct1, THEN mp, OF ns]
  have cv: "convert_entry dp (JNum 5 0) = Some (JNum 5 0)"
    and an: "accepted dp (JNum 5 0) \<longleftrightarrow> JNum 5 0 \<noteq> JNull \<and> valid_date (JNum 5 0)" by blast+
  from an vd have accn: "accepted dp (JNum 5 0)" by simp
  from acc accn have allacc: "\<forall>(c, v) \<in> set pre. accepted dp v" by (simp add: pre_def)
  have b1: "JStr ''not-a-date'' = JNull \<or> (\<exists>t. JStr ''not-a-date'' = JStr t \<and> Date_getTime dp t = None)"
    using d2 by simp
  have b2: "JNull = JNull \<or> (\<exists>t. JNull = JStr t \<and> Date_getTime dp t = None)" by simp
  from t1 [THEN conjunct2, THEN conjunct2, THEN conjunct2, THEN conjunct1, THEN mp, OF conjI [OF allacc b1]]
  have put1: "PUT dp Map.empty (pre @ (''delhi'', JStr ''not-a-date'') # post) =
      (InvalidTimeFormat ''delhi'' (JStr ''not-a-date''), write_entries dp Map.empty pre)"
    and frame: "\<forall>k. k \<notin> geo_key ` fst ` set pre \<longrightarrow> write_entries dp Map.empty pre k = Map.empty k"
    by blast+
  from t2 [THEN conjunct2, THEN conjunct2, THEN conjunct2, THEN conjunct1, THEN mp, OF conjI [OF allacc b2]]
  have put2: "PUT dp Map.empty (pre @ (''delhi'', JNull) # post) =
      (InvalidTimeFormat ''delhi'' JNull, write_entries dp Map.empty pre)"
    by (rule conjunct1)
  from t1 [THEN conjunct2, THEN conjunct2, THEN conjunct2, THEN conjunct2, THEN mp, OF allacc]
  have all: "snd (PUT dp Map.empty pre) = write_entries dp Map.empty pre" by (rule conjunct1)
  have lc: "toLowerCase ''mumbai'' = ''mumbai''" "toLowerCase ''pune'' = ''pune''"
    "toLowerCase ''goa'' = ''goa''" "toLowerCase ''delhi'' = ''delhi''" by code_simp+
  have w1: "write_entries dp Map.empty pre (geo_key ''mumbai'') = Some (number_to_string 60 0, None)"
    by (simp add: write_entries_def pre_def convert_entry_def d1 redis_set_def geo_key_def lc)
  have w2: "write_entries dp Map.empty pre (geo_key ''goa'') = Some (number_to_string 5 0, None)"
    by (simp add: write_entries_def pre_def convert_entry_def d1 redis_set_def geo_key_def lc)
  have "geo_key ''pune'' \<notin> geo_key ` fst ` set pre" "geo_key ''delhi'' \<notin> geo_key ` fst ` set pre"
    by (simp_all add: pre_def geo_key_def lc)
  with frame have w3: "write_entries dp Map.empty pre (geo_key ''pune'') = None"
    and w4: "write_entries dp Map.empty pre (geo_key ''delhi'') = None" by simp_all
  from d1' acc ns vd accn d2 put1 put2 w1 w2 w3 w4 all show ?thesis
    unfolding dp_def iso_def pre_def post_def by blast
qed

text \<open>
  The claim as stated has every entry validated before it is written. A number is taken
  as it is: one beyond the range of dates is written, and reported as the failure after
  that.
\<close>

theorem PUT_writes_then_rejects_number:
  "PUT (\<lambda>text. None) Map.empty [(''pune'', JNum 10000000000000000 0)] =
     (InvalidTimeFormat ''pune'' (JNum 10000000000000000 0),
      [geo_key ''pune'' \<mapsto> (js_to_string (JNum 10000000000000000 0), None)])"
  by (simp add: PUT_def convert_entry_def setGeoUnlockTime_def valid_date_def to_number_def redis_set_def
        del: js_to_string.simps)

end
